theory Spec2Isabelle
  imports Main "HOL-Library.Word" "HOL-Library.AList"
begin

section \<open>Library functions of Go used by the discovery package\<close>

text \<open>
  A Go string is a sequence of bytes, and so is an Isabelle \<open>string\<close>.  The package
  calls \<open>strings.Split\<close>, \<open>strings.Contains\<close> and \<open>strings.TrimSpace\<close>; every separator
  it passes is a single byte (\<open>/\<close>, \<open>:\<close>, \<open>@\<close>, \<open>,\<close>), so the separator is a \<open>char\<close> here.
\<close>

text \<open>
  \<open>strings.Split(s, sep)\<close>: the pieces of \<open>s\<close> between the occurrences of \<open>sep\<close>.  The
  result is never empty: a string without the separator (the empty string included)
  yields the one-element list holding the string itself.
\<close>

fun strings_Split :: "string \<Rightarrow> char \<Rightarrow> string list" where
  "strings_Split [] sep = [[]]"
| "strings_Split (c # cs) sep =
     (if c = sep then [] # strings_Split cs sep
      else (case strings_Split cs sep of
              [] \<Rightarrow> [[c]]
            | p # ps \<Rightarrow> (c # p) # ps))"

text \<open>\<open>strings.Contains(s, sep)\<close> for a one-byte \<open>sep\<close>.\<close>

definition strings_Contains :: "string \<Rightarrow> char \<Rightarrow> bool" where
  "strings_Contains s sep = (sep \<in> set s)"

text \<open>
  \<open>strings.TrimSpace\<close> removes the leading and the trailing white-space runes, as
  \<open>unicode.IsSpace\<close> defines them, of the UTF-8 decoding of the string.  The white-space
  runes are the six ASCII ones (tab, line feed, vertical tab, form feed, carriage
  return, space) and U+0085, U+00A0, U+1680, U+2000 to U+200A, U+2028, U+2029, U+202F,
  U+205F and U+3000; \<open>space_runes\<close> lists their UTF-8 encodings.  A byte that starts no
  valid encoding decodes to the replacement rune, which is not white space, so trimming
  stops there.
\<close>

definition space_runes :: "string list" where
  "space_runes =
     [[CHR 0x09], [CHR 0x0A], [CHR 0x0B], [CHR 0x0C], [CHR 0x0D], [CHR 0x20],
      [CHR 0xC2, CHR 0x85], [CHR 0xC2, CHR 0xA0],
      [CHR 0xE1, CHR 0x9A, CHR 0x80],
      [CHR 0xE2, CHR 0x80, CHR 0x80], [CHR 0xE2, CHR 0x80, CHR 0x81],
      [CHR 0xE2, CHR 0x80, CHR 0x82], [CHR 0xE2, CHR 0x80, CHR 0x83],
      [CHR 0xE2, CHR 0x80, CHR 0x84], [CHR 0xE2, CHR 0x80, CHR 0x85],
      [CHR 0xE2, CHR 0x80, CHR 0x86], [CHR 0xE2, CHR 0x80, CHR 0x87],
      [CHR 0xE2, CHR 0x80, CHR 0x88], [CHR 0xE2, CHR 0x80, CHR 0x89],
      [CHR 0xE2, CHR 0x80, CHR 0x8A],
      [CHR 0xE2, CHR 0x80, CHR 0xA8], [CHR 0xE2, CHR 0x80, CHR 0xA9],
      [CHR 0xE2, CHR 0x80, CHR 0xAF],
      [CHR 0xE2, CHR 0x81, CHR 0x9F],
      [CHR 0xE3, CHR 0x80, CHR 0x80]]"

text \<open>The number of bytes of the white-space rune a string starts with, 0 if none.\<close>

definition leading_space :: "string \<Rightarrow> nat" where
  "leading_space s =
     (case find (\<lambda>r. take (length r) s = r) space_runes of
        None \<Rightarrow> 0
      | Some r \<Rightarrow> length r)"

text \<open>The number of bytes of the white-space rune a string ends with, 0 if none.\<close>

definition trailing_space :: "string \<Rightarrow> nat" where
  "trailing_space s =
     (case find (\<lambda>r. length r \<le> length s \<and> drop (length s - length r) s = r) space_runes of
        None \<Rightarrow> 0
      | Some r \<Rightarrow> length r)"

function trim_left :: "string \<Rightarrow> string" where
  "trim_left s =
     (if leading_space s = 0 then s else trim_left (drop (leading_space s) s))"
  by pat_completeness auto
termination
proof (relation "measure length")
  fix s :: string
  assume "leading_space s \<noteq> 0"
  moreover have "leading_space [] = 0"
    by (simp add: leading_space_def space_runes_def)
  ultimately have "s \<noteq> []" by auto
  with \<open>leading_space s \<noteq> 0\<close>
  show "(drop (leading_space s) s, s) \<in> measure length" by (cases s) auto
qed simp

function trim_right :: "string \<Rightarrow> string" where
  "trim_right s =
     (if trailing_space s = 0 then s
      else trim_right (take (length s - trailing_space s) s))"
  by pat_completeness auto
termination
proof (relation "measure length")
  fix s :: string
  assume "trailing_space s \<noteq> 0"
  moreover have "trailing_space [] = 0"
    by (simp add: trailing_space_def space_runes_def)
  ultimately have "s \<noteq> []" by auto
  with \<open>trailing_space s \<noteq> 0\<close>
  show "(take (length s - trailing_space s) s, s) \<in> measure length" by (cases s) auto
qed simp

definition strings_TrimSpace :: "string \<Rightarrow> string" where
  "strings_TrimSpace s = trim_right (trim_left s)"

section \<open>Image references\<close>

text \<open>
  \<open>parseImageTag\<close> (discovery package): the last \<open>/\<close>-separated piece of the image
  reference is split on \<open>:\<close>; fewer than two pieces give the tag \<open>latest\<close>; otherwise the
  name is piece 0 and the tag is piece 1, cut at its first \<open>@\<close> when it has one.  All
  the indexing is in range because \<open>strings.Split\<close> returns at least one piece.
\<close>

definition parseImageTag :: "string \<Rightarrow> string \<times> string" where
  "parseImageTag img =
     (let parts = strings_Split img (CHR ''/'');
          imageName = parts ! (length parts - 1);
          nameTag = strings_Split imageName (CHR '':'')
      in if length nameTag < 2 then (nameTag ! 0, ''latest'')
         else
           (let name = nameTag ! 0;
                tag = nameTag ! 1;
                tag = (if strings_Contains tag (CHR ''@'')
                       then strings_Split tag (CHR ''@'') ! 0 else tag)
            in (name, tag)))"

section \<open>Data model (package types)\<close>

record Node =
  NodeName :: string
  IP :: string
  Role :: string
  NodeVersion :: string

record App =
  Name :: string
  Version :: string
  Variants :: "string list"

text \<open>
  A \<open>time.Time\<close> is a point on a line of nanoseconds; a \<open>time.Duration\<close> is a signed
  64-bit count of nanoseconds, read with \<open>sint\<close>, whose arithmetic wraps around.
\<close>

type_synonym Time = int
type_synonym Duration = "64 word"

record ClusterInfo =
  APIVersion :: string
  Timestamp :: Time
  Nodes :: "Node list"
  Apps :: "App list"

text \<open>
  \<open>Config\<close>.  The field \<open>CRDOnly\<close> is read by \<open>discoverApps\<close> and \<open>validateConfig\<close> and
  set by the \<open>--crd-only\<close> flag in \<open>main\<close>.
\<close>

record Config =
  Listen :: string
  CacheTTL :: Duration
  NamespaceSelector :: string
  PreferCRD :: bool
  FallbackWorkloads :: bool
  CRDOnly :: bool
  LogLevel :: string
  WorkloadKinds :: "string list"
  MetricsEnabled :: bool
  HealthcheckMode :: bool

text \<open>\<open>ClusterCache\<close>: \<open>Data\<close> is a pointer, \<open>None\<close> when nil.\<close>

record ClusterCache =
  Data :: "ClusterInfo option"
  UpdatedAt :: Time
  TTL :: Duration

text \<open>
  The body of a custom resource is an untyped tree (\<open>map[string]interface{}\<close>): a value
  is a string, a nested map, or anything else (number, boolean, list, nil).
\<close>

datatype uvalue = UString string | UMap "(string \<times> uvalue) list" | UOther

type_synonym unstructured = "(string \<times> uvalue) list"

text \<open>
  A workload (Deployment or StatefulSet) as the discovery reads it: its labels and the
  containers of its pod template.  A Go map read at a missing key gives the zero value,
  here the empty string.
\<close>

record Container =
  Image :: string

record Workload =
  Labels :: "(string \<times> string) list"
  Containers :: "Container list"

definition label :: "(string \<times> string) list \<Rightarrow> string \<Rightarrow> string" where
  "label labels k = (case map_of labels k of None \<Rightarrow> [] | Some v \<Rightarrow> v)"

text \<open>
  The shared map \<open>map[string]*types.App\<close> of one refresh, as an association list with
  one entry per name.  Writing through the pointer \<open>existing\<close> is an update of the entry.
\<close>

type_synonym appmap = "(string \<times> App) list"

section \<open>Folding a name and a version into the map\<close>

text \<open>The loop over \<open>existing.Variants\<close> that sets \<open>found\<close>.\<close>

fun found_variant :: "string list \<Rightarrow> string \<Rightarrow> bool" where
  "found_variant [] v = False"
| "found_variant (variant # rest) v = (if variant = v then True else found_variant rest v)"

text \<open>
  The second half of \<open>processAppVersionFromUnstructured\<close>: an existing entry gets the
  version appended to its variants when it is not among them, and its main version
  overwritten; a new name gets a fresh entry.
\<close>

definition foldAppVersion :: "string \<Rightarrow> string \<Rightarrow> appmap \<Rightarrow> appmap" where
  "foldAppVersion name version appMap =
     (case map_of appMap name of
        Some existing \<Rightarrow>
          (let existing = (if \<not> found_variant (Variants existing) version
                           then existing\<lparr>Variants := Variants existing @ [version]\<rparr>
                           else existing);
               existing = existing\<lparr>Version := version\<rparr>
           in AList.update name existing appMap)
      | None \<Rightarrow>
          AList.update name \<lparr>Name = name, Version = version, Variants = [version]\<rparr> appMap)"

text \<open>
  The same block of \<open>processWorkloadLabels\<close>: an existing entry gets the version
  appended to its variants when it is not among them, and nothing else is written.
\<close>

definition foldWorkload :: "string \<Rightarrow> string \<Rightarrow> appmap \<Rightarrow> appmap" where
  "foldWorkload appName appVersion appMap =
     (case map_of appMap appName of
        Some existing \<Rightarrow>
          (let existing = (if \<not> found_variant (Variants existing) appVersion
                           then existing\<lparr>Variants := Variants existing @ [appVersion]\<rparr>
                           else existing)
           in AList.update appName existing appMap)
      | None \<Rightarrow>
          AList.update appName
            \<lparr>Name = appName, Version = appVersion, Variants = [appVersion]\<rparr> appMap)"

text \<open>
  The three type assertions at the head of \<open>processAppVersionFromUnstructured\<close>:
  \<open>spec\<close> must be a map, \<open>spec.name\<close> and \<open>spec.version\<close> strings.
\<close>

definition appVersionFields :: "unstructured \<Rightarrow> (string \<times> string) option" where
  "appVersionFields obj =
     (case map_of obj ''spec'' of
        Some (UMap spec) \<Rightarrow>
          (case map_of spec ''name'' of
             Some (UString name) \<Rightarrow>
               (case map_of spec ''version'' of
                  Some (UString version) \<Rightarrow> Some (name, version)
                | _ \<Rightarrow> None)
           | _ \<Rightarrow> None)
      | _ \<Rightarrow> None)"

definition processAppVersionFromUnstructured :: "unstructured \<Rightarrow> appmap \<Rightarrow> appmap" where
  "processAppVersionFromUnstructured obj appMap =
     (case appVersionFields obj of
        None \<Rightarrow> appMap
      | Some (name, version) \<Rightarrow> foldAppVersion name version appMap)"

text \<open>
  The head of \<open>processWorkloadLabels\<close>: name and version from the two labels, or, when
  the name label is empty and there is a container, both from the first image.
\<close>

definition workloadNameVersion ::
  "(string \<times> string) list \<Rightarrow> Container list \<Rightarrow> string \<times> string" where
  "workloadNameVersion labels containers =
     (let appName = label labels ''app.kubernetes.io/name'';
          appVersion = label labels ''app.kubernetes.io/version''
      in if appName = [] \<and> length containers > 0
         then parseImageTag (Image (containers ! 0))
         else (appName, appVersion))"

definition processWorkloadLabels ::
  "(string \<times> string) list \<Rightarrow> Container list \<Rightarrow> appmap \<Rightarrow> appmap" where
  "processWorkloadLabels labels containers appMap =
     (case workloadNameVersion labels containers of
        (appName, appVersion) \<Rightarrow>
          if appName \<noteq> []
          then foldWorkload appName (if appVersion = [] then ''unknown'' else appVersion) appMap
          else appMap)"

section \<open>The cluster and the trace of one discovery pass\<close>

text \<open>
  The three list capabilities of the cluster, each a function of the namespace it is
  asked for; the empty namespace (\<open>metav1.NamespaceAll\<close>) asks for all namespaces.  A
  call fails with a message (\<open>Inl\<close>) or returns the items.
\<close>

record Cluster =
  AppVersions :: "string \<Rightarrow> string + unstructured list"
  Deployments :: "string \<Rightarrow> string + Workload list"
  StatefulSets :: "string \<Rightarrow> string + Workload list"

datatype api_call =
    ListAppVersions string
  | ListDeployments string
  | ListStatefulSets string

datatype level = DebugLevel | InfoLevel | WarnLevel | ErrorLevel

text \<open>
  What one pass of \<open>discoverApps\<close> has done so far: the shared map, the list calls it
  has issued and the log entries it has written, both oldest first.
\<close>

record pass =
  appMap :: appmap
  calls :: "api_call list"
  logs :: "(level \<times> string) list"

definition called :: "api_call \<Rightarrow> pass \<Rightarrow> pass" where
  "called c st = st\<lparr>calls := calls st @ [c]\<rparr>"

definition logged :: "level \<Rightarrow> string \<Rightarrow> pass \<Rightarrow> pass" where
  "logged l msg st = st\<lparr>logs := logs st @ [(l, msg)]\<rparr>"

section \<open>Namespace selector\<close>

definition parseNamespaceSelector :: "string \<Rightarrow> string list" where
  "parseNamespaceSelector selector =
     (if selector = [] then [[]]
      else map strings_TrimSpace (strings_Split selector (CHR '','')))"

section \<open>Discovery from AppVersion objects\<close>

definition processAppVersions :: "unstructured list \<Rightarrow> pass \<Rightarrow> pass" where
  "processAppVersions items st =
     st\<lparr>appMap := fold processAppVersionFromUnstructured items (appMap st)\<rparr>"

text \<open>
  The loop of \<open>discoverAppsFromCRD\<close> over the parsed namespaces: a failed list call is
  logged and the loop continues with the next namespace.
\<close>

fun discoverCRDNamespaces :: "Cluster \<Rightarrow> string list \<Rightarrow> pass \<Rightarrow> pass" where
  "discoverCRDNamespaces cl [] st = st"
| "discoverCRDNamespaces cl (ns # rest) st =
     (let st = called (ListAppVersions ns) st
      in case AppVersions cl ns of
           Inl err \<Rightarrow>
             discoverCRDNamespaces cl rest
               (logged WarnLevel ''Failed to list AppVersions in namespace'' st)
         | Inr items \<Rightarrow>
             discoverCRDNamespaces cl rest (processAppVersions items st))"

definition discoverAppsFromCRD :: "Config \<Rightarrow> Cluster \<Rightarrow> pass \<Rightarrow> string option \<times> pass" where
  "discoverAppsFromCRD cfg cl st =
     (if NamespaceSelector cfg = []
      then
        (let st = called (ListAppVersions []) st
         in case AppVersions cl [] of
              Inl err \<Rightarrow> (Some (''failed to list AppVersions: '' @ err), st)
            | Inr items \<Rightarrow> (None, processAppVersions items st))
      else
        (None,
         discoverCRDNamespaces cl (parseNamespaceSelector (NamespaceSelector cfg)) st))"

section \<open>Discovery from workloads\<close>

definition processWorkloads :: "Workload list \<Rightarrow> pass \<Rightarrow> pass" where
  "processWorkloads items st =
     st\<lparr>appMap :=
          fold (\<lambda>w. processWorkloadLabels (Labels w) (Containers w)) items (appMap st)\<rparr>"

text \<open>
  \<open>discoverFromDeployments\<close>: for each namespace one list call, cluster-wide when the
  namespace is the empty string; a failed call returns the error at once, and the
  namespaces after it are not visited.
\<close>

fun discoverFromDeployments ::
  "Cluster \<Rightarrow> string list \<Rightarrow> pass \<Rightarrow> string option \<times> pass" where
  "discoverFromDeployments cl [] st = (None, st)"
| "discoverFromDeployments cl (ns # rest) st =
     (let (deployments, st) =
            (if ns = []
             then (Deployments cl [], called (ListDeployments []) st)
             else (Deployments cl ns, called (ListDeployments ns) st))
      in case deployments of
           Inl err \<Rightarrow> (Some (''failed to list deployments: '' @ err), st)
         | Inr items \<Rightarrow> discoverFromDeployments cl rest (processWorkloads items st))"

fun discoverFromStatefulSets ::
  "Cluster \<Rightarrow> string list \<Rightarrow> pass \<Rightarrow> string option \<times> pass" where
  "discoverFromStatefulSets cl [] st = (None, st)"
| "discoverFromStatefulSets cl (ns # rest) st =
     (let (statefulSets, st) =
            (if ns = []
             then (StatefulSets cl [], called (ListStatefulSets []) st)
             else (StatefulSets cl ns, called (ListStatefulSets ns) st))
      in case statefulSets of
           Inl err \<Rightarrow> (Some (''failed to list statefulsets: '' @ err), st)
         | Inr items \<Rightarrow> discoverFromStatefulSets cl rest (processWorkloads items st))"

text \<open>
  The loop of \<open>discoverAppsFromWorkloads\<close> over the configured kinds: the error of a
  kind is logged and the next kind is tried; a kind that is neither \<open>Deployment\<close> nor
  \<open>StatefulSet\<close> is passed over.
\<close>

fun discoverKinds :: "Cluster \<Rightarrow> string list \<Rightarrow> string list \<Rightarrow> pass \<Rightarrow> pass" where
  "discoverKinds cl namespaces [] st = st"
| "discoverKinds cl namespaces (kind # rest) st =
     (if kind = ''Deployment'' then
        (case discoverFromDeployments cl namespaces st of
           (Some err, st) \<Rightarrow>
             discoverKinds cl namespaces rest
               (logged ErrorLevel ''Failed to discover from deployments'' st)
         | (None, st) \<Rightarrow> discoverKinds cl namespaces rest st)
      else if kind = ''StatefulSet'' then
        (case discoverFromStatefulSets cl namespaces st of
           (Some err, st) \<Rightarrow>
             discoverKinds cl namespaces rest
               (logged ErrorLevel ''Failed to discover from statefulsets'' st)
         | (None, st) \<Rightarrow> discoverKinds cl namespaces rest st)
      else discoverKinds cl namespaces rest st)"

definition workloadNamespaces :: "Config \<Rightarrow> string list" where
  "workloadNamespaces cfg =
     (if NamespaceSelector cfg \<noteq> [] then parseNamespaceSelector (NamespaceSelector cfg)
      else [[]])"

definition discoverAppsFromWorkloads ::
  "Config \<Rightarrow> Cluster \<Rightarrow> pass \<Rightarrow> string option \<times> pass" where
  "discoverAppsFromWorkloads cfg cl st =
     (None, discoverKinds cl (workloadNamespaces cfg) (WorkloadKinds cfg) st)"

section \<open>The merge policy\<close>

text \<open>
  \<open>discoverApps\<close> starts from an empty map, runs the sources its flags enable and turns
  the map into a list.  Go iterates over a map in no fixed order; the list here is in
  the order in which the names entered the map, and no statement below depends on the
  order of a list of two or more apps.
\<close>

definition discoverApps :: "Config \<Rightarrow> Cluster \<Rightarrow> (string + App list) \<times> pass" where
  "discoverApps cfg cl =
     (let st = \<lparr>appMap = [], calls = [], logs = []\<rparr>;
          st = (if PreferCRD cfg
                then (case discoverAppsFromCRD cfg cl st of
                        (Some err, st) \<Rightarrow>
                          logged WarnLevel ''CRD discovery failed, falling back to workloads'' st
                      | (None, st) \<Rightarrow> st)
                else st);
          st = (if FallbackWorkloads cfg \<and> \<not> CRDOnly cfg
                then (case discoverAppsFromWorkloads cfg cl st of
                        (Some err, st) \<Rightarrow> logged ErrorLevel ''Workload discovery failed'' st
                      | (None, st) \<Rightarrow> st)
                else if CRDOnly cfg
                then logged DebugLevel ''CRD-only mode enabled, skipping workload discovery'' st
                else st)
      in (Inr (map snd (appMap st)), st))"

definition validateConfig :: "Config \<Rightarrow> string option" where
  "validateConfig cfg =
     (if CRDOnly cfg \<and> \<not> PreferCRD cfg
      then Some ''CRD-only mode requires preferCRD to be true''
      else None)"

section \<open>The cache and the query facade\<close>

text \<open>
  \<open>t.Sub(u)\<close> is the difference of two times as a \<open>Duration\<close>, held at the largest or
  the smallest \<open>Duration\<close> when it does not fit; \<open>time.Since(t)\<close> is \<open>time.Now().Sub(t)\<close>,
  the reading of the clock being the first argument here.
\<close>

definition time_Sub :: "Time \<Rightarrow> Time \<Rightarrow> Duration" where
  "time_Sub t u =
     (let d = t - u
      in if d > 2 ^ 63 - 1 then word_of_int (2 ^ 63 - 1)
         else if d < - (2 ^ 63) then word_of_int (- (2 ^ 63))
         else word_of_int d)"

definition time_Since :: "Time \<Rightarrow> Time \<Rightarrow> Duration" where
  "time_Since now t = time_Sub now t"

definition IsExpired :: "ClusterCache \<Rightarrow> Time \<Rightarrow> bool" where
  "IsExpired c now = (sint (time_Since now (UpdatedAt c)) > sint (TTL c))"

text \<open>
  \<open>GetClusterInfo\<close> reads the clock once in \<open>IsExpired\<close> (\<open>tcheck\<close>) and once for the
  timestamp of what it returns (\<open>tstamp\<close>).
\<close>

definition GetClusterInfo :: "ClusterCache \<Rightarrow> Time \<Rightarrow> Time \<Rightarrow> ClusterInfo" where
  "GetClusterInfo cache tcheck tstamp =
     (case Data cache of
        None \<Rightarrow>
          \<lparr>APIVersion = ''reflector.grid.sce.com/v1'', Timestamp = tstamp,
           Nodes = [], Apps = []\<rparr>
      | Some d \<Rightarrow>
          if IsExpired cache tcheck
          then \<lparr>APIVersion = ''reflector.grid.sce.com/v1'', Timestamp = tstamp,
                Nodes = [], Apps = []\<rparr>
          else d\<lparr>Timestamp := tstamp\<rparr>)"

text \<open>
  \<open>refreshCache\<close>, given what \<open>discoverNodes\<close> returned and the two readings of the
  clock it takes: a failed node discovery leaves the cache as it is; otherwise the
  apps are discovered and the new snapshot is installed.
\<close>

definition refreshCache ::
  "(string + Node list) \<Rightarrow> Config \<Rightarrow> Cluster \<Rightarrow> Time \<Rightarrow> Time \<Rightarrow> ClusterCache
     \<Rightarrow> string option \<times> ClusterCache" where
  "refreshCache discovered cfg cl t1 t2 cache =
     (case discovered of
        Inl err \<Rightarrow> (Some (''failed to discover nodes: '' @ err), cache)
      | Inr nodes \<Rightarrow>
          (case fst (discoverApps cfg cl) of
             Inl err \<Rightarrow> (Some (''failed to discover apps: '' @ err), cache)
           | Inr apps \<Rightarrow>
               (None,
                cache\<lparr>Data := Some \<lparr>APIVersion = ''reflector.grid.sce.com/v1'',
                                     Timestamp = t1, Nodes = nodes, Apps = apps\<rparr>,
                      UpdatedAt := t2\<rparr>)))"

datatype health_error = ConnectivityError string | StaleError Duration

text \<open>
  \<open>HealthCheck\<close>, given the error of the node list call capped at one result (\<open>None\<close>
  when the call succeeded) and the reading of the clock.  \<open>CacheTTL * 2\<close> is a product
  of 64-bit durations.
\<close>

definition HealthCheck ::
  "string option \<Rightarrow> Config \<Rightarrow> ClusterCache \<Rightarrow> Time \<Rightarrow> health_error option" where
  "HealthCheck probe cfg cache now =
     (case probe of
        Some err \<Rightarrow> Some (ConnectivityError err)
      | None \<Rightarrow>
          (let cacheAge = time_Since now (UpdatedAt cache)
           in if sint cacheAge > sint (CacheTTL cfg * 2) then Some (StaleError cacheAge)
              else None))"

section \<open>What one pass observes\<close>

text \<open>
  An observation is a name and a version together with the source that supplies them.
  \<open>foldObservation\<close> applies the fold of that source; the discovery functions are shown
  below to fold, in order, the observations that \<open>passObservations\<close> lists.
\<close>

datatype source = FromCRD | FromWorkload

type_synonym observation = "source \<times> string \<times> string"

fun foldObservation :: "observation \<Rightarrow> appmap \<Rightarrow> appmap" where
  "foldObservation (FromCRD, name, version) m = foldAppVersion name version m"
| "foldObservation (FromWorkload, name, version) m = foldWorkload name version m"

definition foldObservations :: "observation list \<Rightarrow> appmap \<Rightarrow> appmap" where
  "foldObservations obs m = fold foldObservation obs m"

text \<open>The versions observed for a name, in order; and those the CRD source supplied.\<close>

definition versions_of :: "string \<Rightarrow> observation list \<Rightarrow> string list" where
  "versions_of n obs = map (\<lambda>ob. snd (snd ob)) (filter (\<lambda>ob. fst (snd ob) = n) obs)"

definition crd_versions_of :: "string \<Rightarrow> observation list \<Rightarrow> string list" where
  "crd_versions_of n obs =
     map (\<lambda>ob. snd (snd ob)) (filter (\<lambda>ob. fst ob = FromCRD \<and> fst (snd ob) = n) obs)"

text \<open>The distinct elements of a list in the order of their first occurrence.\<close>

fun first_seen :: "'a list \<Rightarrow> 'a list" where
  "first_seen [] = []"
| "first_seen (x # xs) = x # filter (\<lambda>y. y \<noteq> x) (first_seen xs)"

text \<open>
  The invariant of the variants of one name: no entry as long as nothing was observed
  for the name, and otherwise the versions observed for it, each once, first seen first.
\<close>

definition variants_ok :: "appmap \<Rightarrow> observation list \<Rightarrow> string \<Rightarrow> bool" where
  "variants_ok m obs n =
     (case map_of m n of
        None \<Rightarrow> versions_of n obs = []
      | Some a \<Rightarrow> Variants a = first_seen (versions_of n obs))"

text \<open>
  The main version the folds leave for a name: the last version the CRD source
  supplied, and the first version observed when the CRD source supplied none.
\<close>

definition primary_version :: "string \<Rightarrow> observation list \<Rightarrow> string option" where
  "primary_version n obs =
     (if crd_versions_of n obs \<noteq> [] then Some (last (crd_versions_of n obs))
      else if versions_of n obs \<noteq> [] then Some (hd (versions_of n obs))
      else None)"

text \<open>What the objects of one list call contribute, in the order of the list.\<close>

definition observeAppVersions :: "unstructured list \<Rightarrow> observation list" where
  "observeAppVersions items =
     concat (map (\<lambda>obj. case appVersionFields obj of
                           None \<Rightarrow> []
                         | Some (name, version) \<Rightarrow> [(FromCRD, name, version)]) items)"

definition observeWorkloads :: "Workload list \<Rightarrow> observation list" where
  "observeWorkloads items =
     concat (map (\<lambda>w. case workloadNameVersion (Labels w) (Containers w) of
                         (appName, appVersion) \<Rightarrow>
                           if appName \<noteq> []
                           then [(FromWorkload, appName,
                                  if appVersion = [] then ''unknown'' else appVersion)]
                           else []) items)"

definition succeeded :: "(string + 'a) \<Rightarrow> bool" where
  "succeeded r = (case r of Inl err \<Rightarrow> False | Inr x \<Rightarrow> True)"

definition listed :: "(string + 'a list) \<Rightarrow> 'a list" where
  "listed r = (case r of Inl err \<Rightarrow> [] | Inr items \<Rightarrow> items)"

text \<open>
  The CRD source lists every namespace of the selector (all namespaces at once when the
  selector is empty); a namespace whose list call fails contributes nothing.
\<close>

definition crdObservations :: "Config \<Rightarrow> Cluster \<Rightarrow> observation list" where
  "crdObservations cfg cl =
     (if NamespaceSelector cfg = [] then observeAppVersions (listed (AppVersions cl []))
      else concat (map (\<lambda>ns. observeAppVersions (listed (AppVersions cl ns)))
                     (parseNamespaceSelector (NamespaceSelector cfg))))"

definition crdCalls :: "Config \<Rightarrow> api_call list" where
  "crdCalls cfg =
     (if NamespaceSelector cfg = [] then [ListAppVersions []]
      else map ListAppVersions (parseNamespaceSelector (NamespaceSelector cfg)))"

text \<open>
  The namespaces a workload kind lists: those of the list up to and including the
  first one whose list call fails.
\<close>

fun visited :: "(string \<Rightarrow> string + 'a list) \<Rightarrow> string list \<Rightarrow> string list" where
  "visited list [] = []"
| "visited list (ns # rest) =
     (case list ns of Inl err \<Rightarrow> [ns] | Inr items \<Rightarrow> ns # visited list rest)"

definition kindObservations :: "Cluster \<Rightarrow> string list \<Rightarrow> string \<Rightarrow> observation list" where
  "kindObservations cl namespaces kind =
     (if kind = ''Deployment''
      then concat (map (\<lambda>ns. observeWorkloads (listed (Deployments cl ns)))
                     (visited (Deployments cl) namespaces))
      else if kind = ''StatefulSet''
      then concat (map (\<lambda>ns. observeWorkloads (listed (StatefulSets cl ns)))
                     (visited (StatefulSets cl) namespaces))
      else [])"

definition kindCalls :: "Cluster \<Rightarrow> string list \<Rightarrow> string \<Rightarrow> api_call list" where
  "kindCalls cl namespaces kind =
     (if kind = ''Deployment'' then map ListDeployments (visited (Deployments cl) namespaces)
      else if kind = ''StatefulSet''
      then map ListStatefulSets (visited (StatefulSets cl) namespaces)
      else [])"

definition workloadObservations :: "Config \<Rightarrow> Cluster \<Rightarrow> observation list" where
  "workloadObservations cfg cl =
     concat (map (kindObservations cl (workloadNamespaces cfg)) (WorkloadKinds cfg))"

definition workloadCalls :: "Config \<Rightarrow> Cluster \<Rightarrow> api_call list" where
  "workloadCalls cfg cl =
     concat (map (kindCalls cl (workloadNamespaces cfg)) (WorkloadKinds cfg))"

text \<open>
  The merge policy in the words of the specification: the CRD source when \<open>preferCRD\<close>
  is set, then the workload source when \<open>fallbackWorkloads\<close> is set and \<open>crdOnly\<close> is not.
\<close>

definition passObservations :: "Config \<Rightarrow> Cluster \<Rightarrow> observation list" where
  "passObservations cfg cl =
     (if PreferCRD cfg then crdObservations cfg cl else [])
     @ (if FallbackWorkloads cfg \<and> \<not> CRDOnly cfg then workloadObservations cfg cl else [])"

definition passCalls :: "Config \<Rightarrow> Cluster \<Rightarrow> api_call list" where
  "passCalls cfg cl =
     (if PreferCRD cfg then crdCalls cfg else [])
     @ (if FallbackWorkloads cfg \<and> \<not> CRDOnly cfg then workloadCalls cfg cl else [])"

definition is_crd_call :: "api_call \<Rightarrow> bool" where
  "is_crd_call c = (case c of ListAppVersions ns \<Rightarrow> True | _ \<Rightarrow> False)"

definition is_workload_call :: "api_call \<Rightarrow> bool" where
  "is_workload_call c = (case c of ListAppVersions ns \<Rightarrow> False | _ \<Rightarrow> True)"

text \<open>One entry per name, each under the name it carries.\<close>

definition entries_ok :: "appmap \<Rightarrow> bool" where
  "entries_ok m = (distinct (map fst m) \<and> (\<forall>k a. map_of m k = Some a \<longrightarrow> Name a = k))"

section \<open>Configurations and clusters used as concrete inputs\<close>

text \<open>The defaults of the command-line flags in \<open>main\<close>; ten seconds are \<open>10^10\<close> ns.\<close>

definition defaultConfig :: Config where
  "defaultConfig =
     \<lparr>Listen = '':8080'', CacheTTL = 10000000000, NamespaceSelector = [],
      PreferCRD = True, FallbackWorkloads = True, CRDOnly = False, LogLevel = ''info'',
      WorkloadKinds = [''Deployment'', ''StatefulSet''], MetricsEnabled = False,
      HealthcheckMode = False\<rparr>"

definition appVersionObject :: "string \<Rightarrow> string \<Rightarrow> unstructured" where
  "appVersionObject name version =
     [(''apiVersion'', UString ''cluster.grid.sce.com/v1alpha1''),
      (''kind'', UString ''AppVersion''),
      (''spec'', UMap [(''name'', UString name), (''version'', UString version)])]"

definition labelledWorkload :: "string \<Rightarrow> string \<Rightarrow> Workload" where
  "labelledWorkload name version =
     \<lparr>Labels = [(''app.kubernetes.io/name'', name), (''app.kubernetes.io/version'', version)],
      Containers = []\<rparr>"

text \<open>
  One AppVersion object \<open>my-app\<close> 1.0.0 and one Deployment labelled \<open>my-app\<close> 0.9.0,
  both in the namespace \<open>default\<close>; no StatefulSet.
\<close>

definition endToEndCluster :: Cluster where
  "endToEndCluster =
     \<lparr>AppVersions = (\<lambda>ns. if ns = [] \<or> ns = ''default''
                            then Inr [appVersionObject ''my-app'' ''1.0.0''] else Inr []),
      Deployments = (\<lambda>ns. if ns = [] \<or> ns = ''default''
                            then Inr [labelledWorkload ''my-app'' ''0.9.0''] else Inr []),
      StatefulSets = (\<lambda>ns. Inr [])\<rparr>"

text \<open>A snapshot as \<open>refreshCache\<close> installs it, and a cache written at time 1001.\<close>

definition someInfo :: ClusterInfo where
  "someInfo =
     \<lparr>APIVersion = ''reflector.grid.sce.com/v1'', Timestamp = 1000,
      Nodes = [\<lparr>NodeName = ''cp-1'', IP = ''10.0.1.100'', Role = ''control-plane'',
                NodeVersion = ''v1.28.4''\<rparr>],
      Apps = [\<lparr>Name = ''my-app'', Version = ''1.0.0'',
               Variants = [''1.0.0'', ''0.9.0'']\<rparr>]\<rparr>"

definition emptyCache :: ClusterCache where
  "emptyCache = \<lparr>Data = None, UpdatedAt = 0, TTL = 10000000000\<rparr>"

definition filledCache :: ClusterCache where
  "filledCache = \<lparr>Data = Some someInfo, UpdatedAt = 1001, TTL = 10000000000\<rparr>"

text \<open>
  A cache TTL of \<open>2^62\<close> ns, a little over 146 years: a duration the \<open>--cache-ttl\<close> flag
  accepts (\<open>1281024h\<close> is slightly more) and whose double is not a \<open>Duration\<close>.
\<close>

definition longTTLConfig :: Config where
  "longTTLConfig = defaultConfig\<lparr>CacheTTL := 2 ^ 62\<rparr>"

definition longTTLCache :: ClusterCache where
  "longTTLCache = \<lparr>Data = Some someInfo, UpdatedAt = 1001, TTL = 2 ^ 62\<rparr>"

text \<open>
  An AppVersion object \<open>web\<close> 2.0.0 and a Deployment labelled \<open>web\<close> 2.1.0: the
  workload is processed after the object.
\<close>

definition precedenceCluster :: Cluster where
  "precedenceCluster =
     \<lparr>AppVersions = (\<lambda>ns. Inr [appVersionObject ''web'' ''2.0.0'']),
      Deployments = (\<lambda>ns. Inr [labelledWorkload ''web'' ''2.1.0'']),
      StatefulSets = (\<lambda>ns. Inr [])\<rparr>"

text \<open>
  A selector naming two namespaces.  In the cluster, listing the Deployments of \<open>a\<close>
  is refused; \<open>b\<close> holds a Deployment \<open>web\<close>, \<open>a\<close> a StatefulSet \<open>db\<close>.
\<close>

definition twoNamespacesConfig :: Config where
  "twoNamespacesConfig = defaultConfig\<lparr>NamespaceSelector := ''a,b''\<rparr>"

definition refusingCluster :: Cluster where
  "refusingCluster =
     \<lparr>AppVersions = (\<lambda>ns. Inr []),
      Deployments = (\<lambda>ns. if ns = ''a'' then Inl ''forbidden''
                            else if ns = ''b'' then Inr [labelledWorkload ''web'' ''1.0'']
                            else Inr []),
      StatefulSets = (\<lambda>ns. if ns = ''a'' then Inr [labelledWorkload ''db'' ''5.7'']
                             else Inr [])\<rparr>"

text \<open>
  A cluster without the AppVersion resource type: every list call for it fails.  It
  holds one Deployment \<open>api\<close>.
\<close>

definition noCRDCluster :: Cluster where
  "noCRDCluster =
     \<lparr>AppVersions = (\<lambda>ns. Inl ''the server could not find the requested resource''),
      Deployments = (\<lambda>ns. Inr [labelledWorkload ''api'' ''3.1'']),
      StatefulSets = (\<lambda>ns. Inr [])\<rparr>"

definition crdOnlyConfig :: Config where
  "crdOnlyConfig = defaultConfig\<lparr>CRDOnly := True\<rparr>"





text \<open>Apps and observations used as concrete inputs.\<close>

definition webApp :: App where
  "webApp = \<lparr>Name = ''web'', Version = ''2.0.0'', Variants = [''2.0.0'', ''2.1.0'']\<rparr>"

definition apiApp :: App where
  "apiApp = \<lparr>Name = ''api'', Version = ''3.1'', Variants = [''3.1'']\<rparr>"

definition threeObservations :: "observation list" where
  "threeObservations =
     [(FromCRD, ''web'', ''2.0''), (FromWorkload, ''web'', ''2.1''), (FromCRD, ''db'', ''5.7''),
      (FromWorkload, ''web'', ''2.0'')]"

section \<open>Facts about the library functions\<close>

lemma strings_Split_nonempty: "strings_Split s sep \<noteq> []"
  by (induction s) (auto split: list.splits)

lemma sint_double:
  fixes x :: "64 word"
  assumes "- (2 ^ 63) \<le> 2 * sint x" and "2 * sint x < 2 ^ 63"
  shows "sint (x * 2) = 2 * sint x"
proof -
  have "sint (x * 2) = signed_take_bit 63 (sint x * sint (2 :: 64 word))"
    by (simp add: sint_word_ariths)
  also have "sint (2 :: 64 word) = 2" by simp
  also have "signed_take_bit 63 (sint x * 2) = sint x * 2"
    using assms by (intro signed_take_bit_int_eq_self) auto
  finally show ?thesis by simp
qed

section \<open>Facts about the folds\<close>

lemma found_variant_iff: "found_variant vs v = (v \<in> set vs)"
  by (induction vs) auto

lemma set_first_seen: "set (first_seen xs) = set xs"
  by (induction xs) auto

lemma distinct_first_seen: "distinct (first_seen xs)"
  by (induction xs) (auto simp: set_first_seen)

lemma first_seen_snoc:
  "first_seen (xs @ [v]) = (if v \<in> set xs then first_seen xs else first_seen xs @ [v])"
  by (induction xs) auto

lemma map_of_foldAppVersion:
  "map_of (foldAppVersion k v m) n =
     (if n = k
      then Some (case map_of m k of
                   Some a \<Rightarrow> a\<lparr>Variants := (if v \<in> set (Variants a) then Variants a
                                              else Variants a @ [v]),
                               Version := v\<rparr>
                 | None \<Rightarrow> \<lparr>Name = k, Version = v, Variants = [v]\<rparr>)
      else map_of m n)"
  by (simp add: foldAppVersion_def found_variant_iff update_conv' Let_def split: option.splits)

lemma map_of_foldWorkload:
  "map_of (foldWorkload k v m) n =
     (if n = k
      then Some (case map_of m k of
                   Some a \<Rightarrow> a\<lparr>Variants := (if v \<in> set (Variants a) then Variants a
                                              else Variants a @ [v])\<rparr>
                 | None \<Rightarrow> \<lparr>Name = k, Version = v, Variants = [v]\<rparr>)
      else map_of m n)"
  by (simp add: foldWorkload_def found_variant_iff update_conv' Let_def split: option.splits)

lemma versions_of_snoc:
  "versions_of n (obs @ [(s, k, v)]) =
     (if k = n then versions_of n obs @ [v] else versions_of n obs)"
  by (simp add: versions_of_def)

lemma crd_versions_of_snoc:
  "crd_versions_of n (obs @ [(s, k, v)]) =
     (if s = FromCRD \<and> k = n then crd_versions_of n obs @ [v] else crd_versions_of n obs)"
  by (simp add: crd_versions_of_def)

lemma foldObservations_snoc:
  "foldObservations (obs @ [ob]) m = foldObservation ob (foldObservations obs m)"
  by (simp add: foldObservations_def)

lemma foldObservations_append:
  "foldObservations (xs @ ys) m = foldObservations ys (foldObservations xs m)"
  by (simp add: foldObservations_def)

lemma variants_ok_step:
  assumes "variants_ok m obs n"
  shows "variants_ok (foldObservation (s, k, v) m) (obs @ [(s, k, v)]) n"
  using assms
  by (cases s)
    (auto simp: variants_ok_def map_of_foldAppVersion map_of_foldWorkload versions_of_snoc
      first_seen_snoc set_first_seen split: option.splits)

lemma variants_ok_all: "variants_ok (foldObservations obs []) obs n"
proof (induction obs rule: rev_induct)
  case Nil
  show ?case by (simp add: variants_ok_def foldObservations_def versions_of_def)
next
  case (snoc ob obs)
  obtain s k v where "ob = (s, k, v)" by (cases ob) auto
  with snoc show ?case
    by (simp add: foldObservations_snoc variants_ok_step)
qed

lemma crd_versions_sub: "crd_versions_of n obs \<noteq> [] \<Longrightarrow> versions_of n obs \<noteq> []"
  by (auto simp: crd_versions_of_def versions_of_def filter_empty_conv)

lemma primary_version_all:
  "map_option Version (map_of (foldObservations obs []) n) = primary_version n obs"
proof (induction obs rule: rev_induct)
  case Nil
  show ?case
    by (simp add: primary_version_def foldObservations_def versions_of_def crd_versions_of_def)
next
  case (snoc ob obs)
  obtain s k v where ob: "ob = (s, k, v)" by (cases ob) auto
  have vo: "variants_ok (foldObservations obs []) obs n" by (rule variants_ok_all)
  show ?case
  proof (cases "k = n")
    case False
    with snoc ob show ?thesis
      by (cases s) (simp_all add: foldObservations_snoc map_of_foldAppVersion map_of_foldWorkload
          primary_version_def versions_of_snoc crd_versions_of_snoc)
  next
    case True
    show ?thesis
    proof (cases s)
      case FromCRD
      with True ob show ?thesis
        by (simp add: foldObservations_snoc map_of_foldAppVersion primary_version_def
            crd_versions_of_snoc split: option.splits)
    next
      case FromWorkload
      with True ob snoc vo show ?thesis
        by (auto simp: foldObservations_snoc map_of_foldWorkload primary_version_def
            crd_versions_of_snoc versions_of_snoc variants_ok_def
            split: option.splits if_splits dest: crd_versions_sub)
    qed
  qed
qed


section \<open>The discovery functions fold the observations of the pass\<close>

lemma fold_processAppVersion:
  "fold processAppVersionFromUnstructured items m = foldObservations (observeAppVersions items) m"
proof (induction items arbitrary: m)
  case Nil
  show ?case by (simp add: observeAppVersions_def foldObservations_def)
next
  case (Cons obj items)
  have "observeAppVersions (obj # items) =
          (case appVersionFields obj of None \<Rightarrow> []
           | Some (name, version) \<Rightarrow> [(FromCRD, name, version)]) @ observeAppVersions items"
    by (simp add: observeAppVersions_def)
  with Cons show ?case
    by (simp add: foldObservations_append processAppVersionFromUnstructured_def
        foldObservations_def split: option.splits)
qed

lemma fold_processWorkloadLabels:
  "fold (\<lambda>w. processWorkloadLabels (Labels w) (Containers w)) items m =
     foldObservations (observeWorkloads items) m"
proof (induction items arbitrary: m)
  case Nil
  show ?case by (simp add: observeWorkloads_def foldObservations_def)
next
  case (Cons w items)
  have "observeWorkloads (w # items) =
          (case workloadNameVersion (Labels w) (Containers w) of
             (appName, appVersion) \<Rightarrow>
               if appName \<noteq> []
               then [(FromWorkload, appName, if appVersion = [] then ''unknown'' else appVersion)]
               else []) @ observeWorkloads items"
    by (simp add: observeWorkloads_def)
  with Cons show ?case
    by (simp add: foldObservations_append processWorkloadLabels_def
        foldObservations_def split: prod.splits)
qed

lemma processAppVersions_simps:
  "appMap (processAppVersions items st) = foldObservations (observeAppVersions items) (appMap st)"
  "calls (processAppVersions items st) = calls st"
  "logs (processAppVersions items st) = logs st"
  by (simp_all add: processAppVersions_def fold_processAppVersion)

lemma processWorkloads_simps:
  "appMap (processWorkloads items st) = foldObservations (observeWorkloads items) (appMap st)"
  "calls (processWorkloads items st) = calls st"
  "logs (processWorkloads items st) = logs st"
  by (simp_all add: processWorkloads_def fold_processWorkloadLabels)

lemma called_simps:
  "appMap (called c st) = appMap st"
  "calls (called c st) = calls st @ [c]"
  "logs (called c st) = logs st"
  by (simp_all add: called_def)

lemma logged_simps:
  "appMap (logged l msg st) = appMap st"
  "calls (logged l msg st) = calls st"
  "logs (logged l msg st) = logs st @ [(l, msg)]"
  by (simp_all add: logged_def)

lemma foldObservations_Nil: "foldObservations [] m = m"
  by (simp add: foldObservations_def)

lemma discoverCRDNamespaces_appMap:
  "appMap (discoverCRDNamespaces cl nss st) =
     foldObservations (concat (map (\<lambda>ns. observeAppVersions (listed (AppVersions cl ns))) nss))
       (appMap st)"
  by (induction nss arbitrary: st)
    (auto simp: foldObservations_Nil foldObservations_append listed_def observeAppVersions_def
      processAppVersions_simps called_simps logged_simps Let_def split: sum.splits)

lemma discoverCRDNamespaces_calls:
  "calls (discoverCRDNamespaces cl nss st) = calls st @ map ListAppVersions nss"
  by (induction nss arbitrary: st)
    (auto simp: processAppVersions_simps called_simps logged_simps Let_def split: sum.splits)

lemma discoverCRDNamespaces_logs:
  "x \<in> set (logs st) \<Longrightarrow> x \<in> set (logs (discoverCRDNamespaces cl nss st))"
  by (induction nss arbitrary: st)
    (auto simp: processAppVersions_simps called_simps logged_simps Let_def split: sum.splits)

lemma discoverAppsFromCRD_appMap:
  "appMap (snd (discoverAppsFromCRD cfg cl st)) =
     foldObservations (crdObservations cfg cl) (appMap st)"
  by (auto simp: discoverAppsFromCRD_def crdObservations_def discoverCRDNamespaces_appMap
      processAppVersions_simps called_simps listed_def observeAppVersions_def
      foldObservations_Nil Let_def split: sum.splits)

lemma discoverAppsFromCRD_calls:
  "calls (snd (discoverAppsFromCRD cfg cl st)) = calls st @ crdCalls cfg"
  by (auto simp: discoverAppsFromCRD_def crdCalls_def discoverCRDNamespaces_calls
      processAppVersions_simps called_simps Let_def split: sum.splits)

lemma discoverAppsFromCRD_logs:
  "x \<in> set (logs st) \<Longrightarrow> x \<in> set (logs (snd (discoverAppsFromCRD cfg cl st)))"
  by (auto simp: discoverAppsFromCRD_def discoverCRDNamespaces_logs
      processAppVersions_simps called_simps Let_def split: sum.splits)

lemma discoverFromDeployments_appMap:
  "appMap (snd (discoverFromDeployments cl nss st)) =
     foldObservations
       (concat (map (\<lambda>ns. observeWorkloads (listed (Deployments cl ns)))
                  (visited (Deployments cl) nss))) (appMap st)"
  by (induction nss arbitrary: st)
    (auto simp: foldObservations_Nil foldObservations_append listed_def observeWorkloads_def
      processWorkloads_simps called_simps Let_def split: sum.splits)

lemma discoverFromDeployments_calls:
  "calls (snd (discoverFromDeployments cl nss st)) =
     calls st @ map ListDeployments (visited (Deployments cl) nss)"
  by (induction nss arbitrary: st)
    (auto simp: processWorkloads_simps called_simps Let_def split: sum.splits)

lemma discoverFromDeployments_logs:
  "logs (snd (discoverFromDeployments cl nss st)) = logs st"
  by (induction nss arbitrary: st)
    (auto simp: processWorkloads_simps called_simps Let_def split: sum.splits)

lemma discoverFromStatefulSets_appMap:
  "appMap (snd (discoverFromStatefulSets cl nss st)) =
     foldObservations
       (concat (map (\<lambda>ns. observeWorkloads (listed (StatefulSets cl ns)))
                  (visited (StatefulSets cl) nss))) (appMap st)"
  by (induction nss arbitrary: st)
    (auto simp: foldObservations_Nil foldObservations_append listed_def observeWorkloads_def
      processWorkloads_simps called_simps Let_def split: sum.splits)

lemma discoverFromStatefulSets_calls:
  "calls (snd (discoverFromStatefulSets cl nss st)) =
     calls st @ map ListStatefulSets (visited (StatefulSets cl) nss)"
  by (induction nss arbitrary: st)
    (auto simp: processWorkloads_simps called_simps Let_def split: sum.splits)

lemma discoverFromStatefulSets_logs:
  "logs (snd (discoverFromStatefulSets cl nss st)) = logs st"
  by (induction nss arbitrary: st)
    (auto simp: processWorkloads_simps called_simps Let_def split: sum.splits)


lemma discoverKinds_appMap:
  "appMap (discoverKinds cl nss kinds st) =
     foldObservations (concat (map (kindObservations cl nss) kinds)) (appMap st)"
proof (induction kinds arbitrary: st)
  case Nil
  show ?case by (simp add: foldObservations_Nil)
next
  case (Cons kind kinds)
  show ?case
  proof (cases "kind = ''Deployment''")
    case True
    obtain r st' where r: "discoverFromDeployments cl nss st = (r, st')"
      by (cases "discoverFromDeployments cl nss st") auto
    with discoverFromDeployments_appMap [of cl nss st]
    have "appMap st' = foldObservations (kindObservations cl nss kind) (appMap st)"
      by (simp add: kindObservations_def True)
    with True r Cons show ?thesis
      by (cases r) (simp_all add: foldObservations_append logged_simps)
  next
    case False
    show ?thesis
    proof (cases "kind = ''StatefulSet''")
      case True
      obtain r st' where r: "discoverFromStatefulSets cl nss st = (r, st')"
        by (cases "discoverFromStatefulSets cl nss st") auto
      with discoverFromStatefulSets_appMap [of cl nss st]
      have "appMap st' = foldObservations (kindObservations cl nss kind) (appMap st)"
        by (simp add: kindObservations_def True)
      with True r Cons show ?thesis
        by (cases r) (simp_all add: foldObservations_append logged_simps)
    next
      case False
      with \<open>kind \<noteq> ''Deployment''\<close> Cons show ?thesis
        by (simp add: kindObservations_def foldObservations_Nil)
    qed
  qed
qed

lemma discoverKinds_calls:
  "calls (discoverKinds cl nss kinds st) = calls st @ concat (map (kindCalls cl nss) kinds)"
proof (induction kinds arbitrary: st)
  case Nil
  show ?case by simp
next
  case (Cons kind kinds)
  show ?case
  proof (cases "kind = ''Deployment''")
    case True
    obtain r st' where r: "discoverFromDeployments cl nss st = (r, st')"
      by (cases "discoverFromDeployments cl nss st") auto
    with discoverFromDeployments_calls [of cl nss st]
    have "calls st' = calls st @ kindCalls cl nss kind"
      by (simp add: kindCalls_def True)
    with True r Cons show ?thesis
      by (cases r) (simp_all add: logged_simps)
  next
    case False
    show ?thesis
    proof (cases "kind = ''StatefulSet''")
      case True
      obtain r st' where r: "discoverFromStatefulSets cl nss st = (r, st')"
        by (cases "discoverFromStatefulSets cl nss st") auto
      with discoverFromStatefulSets_calls [of cl nss st]
      have "calls st' = calls st @ kindCalls cl nss kind"
        by (simp add: kindCalls_def True)
      with True r Cons show ?thesis
        by (cases r) (simp_all add: logged_simps)
    next
      case False
      with \<open>kind \<noteq> ''Deployment''\<close> Cons show ?thesis
        by (simp add: kindCalls_def)
    qed
  qed
qed

lemma discoverKinds_logs:
  "x \<in> set (logs st) \<Longrightarrow> x \<in> set (logs (discoverKinds cl nss kinds st))"
proof (induction kinds arbitrary: st)
  case Nil
  then show ?case by simp
next
  case (Cons kind kinds)
  show ?case
  proof (cases "kind = ''Deployment''")
    case True
    obtain r st' where r: "discoverFromDeployments cl nss st = (r, st')"
      by (cases "discoverFromDeployments cl nss st") auto
    with discoverFromDeployments_logs [of cl nss st] have "logs st' = logs st" by simp
    with True r Cons show ?thesis
      by (cases r) (simp_all add: logged_simps)
  next
    case False
    show ?thesis
    proof (cases "kind = ''StatefulSet''")
      case True
      obtain r st' where r: "discoverFromStatefulSets cl nss st = (r, st')"
        by (cases "discoverFromStatefulSets cl nss st") auto
      with discoverFromStatefulSets_logs [of cl nss st] have "logs st' = logs st" by simp
      with True r Cons show ?thesis
        by (cases r) (simp_all add: logged_simps)
    next
      case False
      with \<open>kind \<noteq> ''Deployment''\<close> Cons show ?thesis by simp
    qed
  qed
qed

lemma discoverApps_appMap:
  "appMap (snd (discoverApps cfg cl)) = foldObservations (passObservations cfg cl) []"
proof -
  let ?st0 = "\<lparr>appMap = [], calls = [], logs = []\<rparr>"
  obtain r st1 where r: "discoverAppsFromCRD cfg cl ?st0 = (r, st1)"
    by (cases "discoverAppsFromCRD cfg cl ?st0") auto
  with discoverAppsFromCRD_appMap [of cfg cl ?st0]
  have "appMap st1 = foldObservations (crdObservations cfg cl) []" by simp
  with r show ?thesis
    by (cases r)
      (simp_all add: discoverApps_def passObservations_def discoverAppsFromWorkloads_def
        workloadObservations_def discoverKinds_appMap logged_simps foldObservations_Nil
        foldObservations_append Let_def)
qed

lemma discoverApps_calls:
  "calls (snd (discoverApps cfg cl)) = passCalls cfg cl"
proof -
  let ?st0 = "\<lparr>appMap = [], calls = [], logs = []\<rparr>"
  obtain r st1 where r: "discoverAppsFromCRD cfg cl ?st0 = (r, st1)"
    by (cases "discoverAppsFromCRD cfg cl ?st0") auto
  with discoverAppsFromCRD_calls [of cfg cl ?st0]
  have "calls st1 = crdCalls cfg" by simp
  with r show ?thesis
    by (cases r)
      (simp_all add: discoverApps_def passCalls_def discoverAppsFromWorkloads_def
        workloadCalls_def discoverKinds_calls logged_simps Let_def)
qed

lemma discoverApps_result:
  "fst (discoverApps cfg cl) = Inr (map snd (appMap (snd (discoverApps cfg cl))))"
  by (simp add: discoverApps_def Let_def)

lemma discoverApps_logs_CRD_failure:
  assumes "PreferCRD cfg" and "NamespaceSelector cfg = []" and "AppVersions cl [] = Inl e"
  shows "(WarnLevel, ''CRD discovery failed, falling back to workloads'')
           \<in> set (logs (snd (discoverApps cfg cl)))"
  using assms
  by (simp add: discoverApps_def discoverAppsFromCRD_def discoverAppsFromWorkloads_def
      discoverKinds_logs logged_simps called_simps Let_def)

lemma entries_ok_update:
  assumes "entries_ok m" and "Name a = k"
  shows "entries_ok (AList.update k a m)"
  using assms by (auto simp: entries_ok_def distinct_update update_conv')

lemma entries_ok_lookup:
  assumes "entries_ok m" and "map_of m k = Some a"
  shows "Name a = k"
  using assms by (auto simp: entries_ok_def)

lemma entries_ok_foldObservation:
  assumes "entries_ok m"
  shows "entries_ok (foldObservation ob m)"
proof -
  obtain s k v where ob: "ob = (s, k, v)" by (cases ob) auto
  show ?thesis
  proof (cases "map_of m k")
    case None
    with assms ob show ?thesis
      by (cases s) (simp_all add: foldAppVersion_def foldWorkload_def entries_ok_update)
  next
    case (Some a)
    with assms have "Name a = k" by (rule entries_ok_lookup)
    with assms ob Some show ?thesis
      by (cases s) (simp_all add: foldAppVersion_def foldWorkload_def entries_ok_update Let_def)
  qed
qed

lemma entries_ok_foldObservations: "entries_ok (foldObservations obs [])"
proof (induction obs rule: rev_induct)
  case Nil
  show ?case by (simp add: entries_ok_def foldObservations_def)
next
  case (snoc ob obs)
  then show ?case by (simp add: foldObservations_snoc entries_ok_foldObservation)
qed

lemma app_in_result:
  assumes "a \<in> set (map snd (foldObservations obs []))"
  shows "map_of (foldObservations obs []) (Name a) = Some a"
proof -
  from assms obtain k where ka: "(k, a) \<in> set (foldObservations obs [])" by auto
  have ok: "entries_ok (foldObservations obs [])" by (rule entries_ok_foldObservations)
  with ka have m: "map_of (foldObservations obs []) k = Some a"
    by (simp add: entries_ok_def)
  with ok have "Name a = k" by (rule entries_ok_lookup)
  with m show ?thesis by simp
qed

lemma observed_name_in_result:
  assumes "versions_of n obs \<noteq> []"
  shows "\<exists>a \<in> set (map snd (foldObservations obs [])). Name a = n"
proof -
  have "variants_ok (foldObservations obs []) obs n" by (rule variants_ok_all)
  with assms obtain a where a: "map_of (foldObservations obs []) n = Some a"
    by (auto simp: variants_ok_def split: option.splits)
  then have "(n, a) \<in> set (foldObservations obs [])" by (rule map_of_SomeD)
  moreover have "Name a = n"
    using entries_ok_foldObservations a by (rule entries_ok_lookup)
  ultimately show ?thesis by force
qed

lemma discoverApps_folds:
  "fst (discoverApps cfg cl) = Inr (map snd (foldObservations (passObservations cfg cl) []))"
  using discoverApps_result [of cfg cl] by (simp add: discoverApps_appMap)

section \<open>Sources and order of the observations, and the trace of the pass\<close>

lemma observeAppVersions_source:
  "ob \<in> set (observeAppVersions items) \<Longrightarrow> fst ob = FromCRD"
  by (auto simp: observeAppVersions_def split: option.splits)

lemma observeWorkloads_source:
  "ob \<in> set (observeWorkloads items) \<Longrightarrow> fst ob = FromWorkload"
  by (auto simp: observeWorkloads_def split: prod.splits if_splits)

lemma crdObservations_source:
  "ob \<in> set (crdObservations cfg cl) \<Longrightarrow> fst ob = FromCRD"
  by (auto simp: crdObservations_def dest: observeAppVersions_source split: if_splits)

lemma kindObservations_source:
  "ob \<in> set (kindObservations cl nss kind) \<Longrightarrow> fst ob = FromWorkload"
  by (auto simp: kindObservations_def dest: observeWorkloads_source split: if_splits)

lemma workloadObservations_source:
  "ob \<in> set (workloadObservations cfg cl) \<Longrightarrow> fst ob = FromWorkload"
  by (auto simp: workloadObservations_def dest: kindObservations_source)

lemma crd_versions_of_crdObservations:
  "crd_versions_of n (crdObservations cfg cl) = versions_of n (crdObservations cfg cl)"
proof -
  have "filter (\<lambda>ob. fst ob = FromCRD \<and> fst (snd ob) = n) (crdObservations cfg cl) =
        filter (\<lambda>ob. fst (snd ob) = n) (crdObservations cfg cl)"
    by (rule filter_cong) (auto dest: crdObservations_source)
  then show ?thesis by (simp add: crd_versions_of_def versions_of_def)
qed

lemma crd_versions_of_workloadObservations:
  "crd_versions_of n (workloadObservations cfg cl) = []"
  by (auto simp: crd_versions_of_def filter_empty_conv dest: workloadObservations_source)

lemma crd_versions_of_append:
  "crd_versions_of n (xs @ ys) = crd_versions_of n xs @ crd_versions_of n ys"
  by (simp add: crd_versions_of_def)

lemma crd_versions_of_pass:
  "crd_versions_of n (passObservations cfg cl) =
     (if PreferCRD cfg then versions_of n (crdObservations cfg cl) else [])"
proof -
  have "crd_versions_of n [] = []" by (simp add: crd_versions_of_def)
  then show ?thesis
    by (simp add: passObservations_def crd_versions_of_append crd_versions_of_crdObservations
        crd_versions_of_workloadObservations)
qed

lemma parseNamespaceSelector_nonempty: "parseNamespaceSelector selector \<noteq> []"
  by (simp add: parseNamespaceSelector_def strings_Split_nonempty)

lemma workloadNamespaces_nonempty: "workloadNamespaces cfg \<noteq> []"
  by (simp add: workloadNamespaces_def parseNamespaceSelector_nonempty)

lemma visited_nonempty: "nss \<noteq> [] \<Longrightarrow> visited list nss \<noteq> []"
  by (cases nss) (auto split: sum.splits)

lemma crdCalls_crd: "c \<in> set (crdCalls cfg) \<Longrightarrow> is_crd_call c"
  by (auto simp: crdCalls_def is_crd_call_def split: if_splits)

lemma crdCalls_nonempty: "crdCalls cfg \<noteq> []"
  by (simp add: crdCalls_def parseNamespaceSelector_nonempty)

lemma kindCalls_workload: "c \<in> set (kindCalls cl nss kind) \<Longrightarrow> is_workload_call c"
  by (auto simp: kindCalls_def is_workload_call_def split: if_splits)

lemma workloadCalls_workload: "c \<in> set (workloadCalls cfg cl) \<Longrightarrow> is_workload_call c"
  by (auto simp: workloadCalls_def dest: kindCalls_workload)

lemma kindCalls_empty_iff:
  "nss \<noteq> [] \<Longrightarrow> (kindCalls cl nss kind = []) = (kind \<noteq> ''Deployment'' \<and> kind \<noteq> ''StatefulSet'')"
  by (auto simp: kindCalls_def visited_nonempty)

lemma workloadCalls_empty_iff:
  "(workloadCalls cfg cl = []) =
     (''Deployment'' \<notin> set (WorkloadKinds cfg) \<and> ''StatefulSet'' \<notin> set (WorkloadKinds cfg))"
  using workloadNamespaces_nonempty [of cfg]
  by (auto simp: workloadCalls_def kindCalls_empty_iff)

lemma crd_not_workload: "is_crd_call c = (\<not> is_workload_call c)"
  by (cases c) (simp_all add: is_crd_call_def is_workload_call_def)

lemma passCalls_crd: "(\<exists>c \<in> set (passCalls cfg cl). is_crd_call c) = PreferCRD cfg"
proof -
  obtain c where "c \<in> set (crdCalls cfg)"
    using crdCalls_nonempty [of cfg] by (cases "crdCalls cfg") auto
  then show ?thesis
    by (auto simp: passCalls_def crd_not_workload
        dest: crdCalls_crd [unfolded crd_not_workload] workloadCalls_workload
        split: if_splits)
qed

lemma passCalls_workload:
  "(\<exists>c \<in> set (passCalls cfg cl). is_workload_call c) =
     (FallbackWorkloads cfg \<and> \<not> CRDOnly cfg
      \<and> (''Deployment'' \<in> set (WorkloadKinds cfg) \<or> ''StatefulSet'' \<in> set (WorkloadKinds cfg)))"
proof -
  have a: "(\<exists>c \<in> set (workloadCalls cfg cl). is_workload_call c) =
           (''Deployment'' \<in> set (WorkloadKinds cfg) \<or> ''StatefulSet'' \<in> set (WorkloadKinds cfg))"
    using workloadCalls_empty_iff [of cfg cl] workloadCalls_workload [of _ cfg cl]
    by (cases "workloadCalls cfg cl") auto
  have b: "\<not> (\<exists>c \<in> set (crdCalls cfg). is_workload_call c)"
    using crdCalls_crd [of _ cfg] by (auto simp: crd_not_workload)
  show ?thesis
    using a b by (auto simp: passCalls_def split: if_splits)
qed

lemma passObservations_CRD_first:
  "passObservations cfg cl =
     filter (\<lambda>ob. fst ob = FromCRD) (passObservations cfg cl)
     @ filter (\<lambda>ob. fst ob = FromWorkload) (passObservations cfg cl)"
proof -
  have c1: "filter (\<lambda>ob. fst ob = FromCRD) (crdObservations cfg cl) = crdObservations cfg cl"
    by (auto simp: filter_id_conv dest: crdObservations_source)
  have c2: "filter (\<lambda>ob. fst ob = FromWorkload) (crdObservations cfg cl) = []"
    by (auto simp: filter_empty_conv dest: crdObservations_source)
  have w1: "filter (\<lambda>ob. fst ob = FromCRD) (workloadObservations cfg cl) = []"
    by (auto simp: filter_empty_conv dest: workloadObservations_source)
  have w2: "filter (\<lambda>ob. fst ob = FromWorkload) (workloadObservations cfg cl)
              = workloadObservations cfg cl"
    by (auto simp: filter_id_conv dest: workloadObservations_source)
  show ?thesis
    by (simp add: passObservations_def c1 c2 w1 w2)
qed

lemma passCalls_CRD_first:
  "passCalls cfg cl =
     filter is_crd_call (passCalls cfg cl) @ filter is_workload_call (passCalls cfg cl)"
proof -
  have c1: "filter is_crd_call (crdCalls cfg) = crdCalls cfg"
    by (auto simp: filter_id_conv dest: crdCalls_crd)
  have c2: "filter is_workload_call (crdCalls cfg) = []"
    by (auto simp: filter_empty_conv crd_not_workload dest: crdCalls_crd [unfolded crd_not_workload])
  have w1: "filter is_crd_call (workloadCalls cfg cl) = []"
    by (auto simp: filter_empty_conv crd_not_workload dest: workloadCalls_workload)
  have w2: "filter is_workload_call (workloadCalls cfg cl) = workloadCalls cfg cl"
    by (auto simp: filter_id_conv dest: workloadCalls_workload)
  show ?thesis
    by (simp add: passCalls_def c1 c2 w1 w2)
qed

lemma discoverCRDNamespaces_logs_failure:
  assumes "ns \<in> set nss" and "AppVersions cl ns = Inl e"
  shows "(WarnLevel, ''Failed to list AppVersions in namespace'')
           \<in> set (logs (discoverCRDNamespaces cl nss st))"
  using assms
proof (induction nss arbitrary: st)
  case Nil
  then show ?case by simp
next
  case (Cons n nss)
  show ?case
  proof (cases "n = ns")
    case True
    with Cons.prems show ?thesis
      by (simp add: discoverCRDNamespaces_logs logged_simps Let_def)
  next
    case False
    with Cons show ?thesis
      by (simp add: Let_def split: sum.splits)
  qed
qed

lemma discoverApps_logs_namespace_failure:
  assumes "PreferCRD cfg" and "NamespaceSelector cfg \<noteq> []"
    and "ns \<in> set (parseNamespaceSelector (NamespaceSelector cfg))"
    and "AppVersions cl ns = Inl e"
  shows "(WarnLevel, ''Failed to list AppVersions in namespace'')
           \<in> set (logs (snd (discoverApps cfg cl)))"
  using assms
  by (simp add: discoverApps_def discoverAppsFromCRD_def discoverAppsFromWorkloads_def
      discoverKinds_logs logged_simps discoverCRDNamespaces_logs_failure Let_def)

lemma discoverApps_logs_CRDOnly:
  assumes "CRDOnly cfg"
  shows "(DebugLevel, ''CRD-only mode enabled, skipping workload discovery'')
           \<in> set (logs (snd (discoverApps cfg cl)))"
  using assms by (simp add: discoverApps_def logged_simps Let_def)

lemma crdObservations_failure:
  assumes "NamespaceSelector cfg = []" and "AppVersions cl [] = Inl e"
  shows "crdObservations cfg cl = []"
  using assms by (simp add: crdObservations_def listed_def observeAppVersions_def)

lemma validateConfig_rejects:
  "(validateConfig cfg \<noteq> None) = (CRDOnly cfg \<and> \<not> PreferCRD cfg)"
  by (simp add: validateConfig_def)

section \<open>Image references: the three references of the specification\<close>

text \<open>
  C3.  \<open>parseImageTag\<close> on the three image references the specification lists.  The
  reference with a registry path and a tag gives name \<open>app\<close> and version \<open>1.2.3\<close>, and so
  does the reference with a tag followed by a digest.  The reference with a digest and
  no tag, \<open>app@sha256:abcd\<close>, is split at the colon inside the digest: the name comes
  out as \<open>app@sha256\<close> and the version as \<open>abcd\<close>, not \<open>app\<close> and \<open>latest\<close>.
\<close>

theorem parseImageTag_spec_references:
  "parseImageTag ''registry.io/team/app:1.2.3'' = (''app'', ''1.2.3'')
   \<and> parseImageTag ''app@sha256:abcd'' = (''app@sha256'', ''abcd'')
   \<and> parseImageTag ''app:1.2.3@sha256:abcd'' = (''app'', ''1.2.3'')"
  by code_simp

section \<open>The end-to-end scenario\<close>

text \<open>
  C2.  With the default configuration (both sources enabled, AppVersion objects first),
  one AppVersion object \<open>my-app\<close> 1.0.0 and one Deployment labelled \<open>my-app\<close> 0.9.0, the
  pass returns no error and exactly one app: name \<open>my-app\<close>, version \<open>1.0.0\<close>, variants
  \<open>1.0.0\<close> then \<open>0.9.0\<close>.
\<close>

theorem discoverApps_end_to_end:
  "fst (discoverApps defaultConfig endToEndCluster) =
     Inr [\<lparr>Name = ''my-app'', Version = ''1.0.0'', Variants = [''1.0.0'', ''0.9.0'']\<rparr>]"
  by code_simp

section \<open>The query facade\<close>

text \<open>
  C7.  \<open>GetClusterInfo\<close> always returns a snapshot (its result type has no error), and
  whenever the cache holds no snapshot, or the age of the cache (the time since
  \<open>UpdatedAt\<close>) exceeds the TTL, the snapshot returned is the placeholder: API version
  \<open>reflector.grid.sce.com/v1\<close>, the current time, no node and no app.
\<close>

theorem GetClusterInfo_placeholder:
  assumes "Data cache = None \<or> sint (time_Since tcheck (UpdatedAt cache)) > sint (TTL cache)"
  shows "GetClusterInfo cache tcheck tstamp =
           \<lparr>APIVersion = ''reflector.grid.sce.com/v1'', Timestamp = tstamp,
            Nodes = [], Apps = []\<rparr>"
  using assms by (auto simp: GetClusterInfo_def IsExpired_def split: option.splits)

theorem GetClusterInfo_placeholder_witness:
  "Data emptyCache = None
   \<and> GetClusterInfo emptyCache 5 7 =
        \<lparr>APIVersion = ''reflector.grid.sce.com/v1'', Timestamp = 7, Nodes = [], Apps = []\<rparr>
   \<and> Data filledCache \<noteq> None
   \<and> sint (time_Since 30000001001 (UpdatedAt filledCache)) > sint (TTL filledCache)
   \<and> GetClusterInfo filledCache 30000001001 30000001002 =
        \<lparr>APIVersion = ''reflector.grid.sce.com/v1'', Timestamp = 30000001002,
         Nodes = [], Apps = []\<rparr>"
proof -
  have a: "Data emptyCache = None"
    by (simp add: emptyCache_def)
  have b: "sint (time_Since 30000001001 (UpdatedAt filledCache)) > sint (TTL filledCache)"
    by (simp add: filledCache_def time_Since_def time_Sub_def)
  have c: "Data filledCache \<noteq> None"
    by (simp add: filledCache_def)
  show ?thesis
    using a b c GetClusterInfo_placeholder [OF disjI1 [OF a], of 5 7]
      GetClusterInfo_placeholder [OF disjI2 [OF b], of 30000001002]
    by simp
qed

text \<open>
  C8.  When the cache holds a snapshot and its age is at most the TTL, \<open>GetClusterInfo\<close>
  returns that snapshot with the timestamp replaced by the current time: nodes, apps
  and API version are those of the snapshot held.
\<close>

theorem GetClusterInfo_fresh:
  assumes "Data cache = Some d"
    and "sint (time_Since tcheck (UpdatedAt cache)) \<le> sint (TTL cache)"
  shows "GetClusterInfo cache tcheck tstamp = d\<lparr>Timestamp := tstamp\<rparr>
       \<and> Timestamp (GetClusterInfo cache tcheck tstamp) = tstamp
       \<and> Nodes (GetClusterInfo cache tcheck tstamp) = Nodes d
       \<and> Apps (GetClusterInfo cache tcheck tstamp) = Apps d
       \<and> APIVersion (GetClusterInfo cache tcheck tstamp) = APIVersion d"
  using assms by (simp add: GetClusterInfo_def IsExpired_def)

theorem GetClusterInfo_fresh_witness:
  "Data filledCache = Some someInfo
   \<and> sint (time_Since 5000001001 (UpdatedAt filledCache)) \<le> sint (TTL filledCache)
   \<and> GetClusterInfo filledCache 5000001001 5000001002 = someInfo\<lparr>Timestamp := 5000001002\<rparr>
   \<and> Nodes (GetClusterInfo filledCache 5000001001 5000001002) = Nodes someInfo
   \<and> Apps (GetClusterInfo filledCache 5000001001 5000001002) = Apps someInfo
   \<and> APIVersion (GetClusterInfo filledCache 5000001001 5000001002)
       = ''reflector.grid.sce.com/v1''"
proof -
  have a: "Data filledCache = Some someInfo"
    by (simp add: filledCache_def)
  have b: "sint (time_Since 5000001001 (UpdatedAt filledCache)) \<le> sint (TTL filledCache)"
    by (simp add: filledCache_def time_Since_def time_Sub_def)
  have c: "APIVersion someInfo = ''reflector.grid.sce.com/v1''"
    by (simp add: someInfo_def)
  show ?thesis
    using a b c GetClusterInfo_fresh [OF a b, of 5000001002] by simp
qed

text \<open>
  The snapshot that a successful \<open>refreshCache\<close> installs is the one a later
  \<open>GetClusterInfo\<close> within the TTL returns, up to the timestamp.
\<close>

lemma GetClusterInfo_after_refreshCache:
  assumes "refreshCache (Inr nodes) cfg cl t1 t2 cache = (r, cache')"
    and "sint (time_Since tcheck t2) \<le> sint (TTL cache)"
  shows "r = None
       \<and> Nodes (GetClusterInfo cache' tcheck tstamp) = nodes
       \<and> Inr (Apps (GetClusterInfo cache' tcheck tstamp)) = fst (discoverApps cfg cl)
       \<and> APIVersion (GetClusterInfo cache' tcheck tstamp) = ''reflector.grid.sce.com/v1''"
  using assms
  by (auto simp: refreshCache_def GetClusterInfo_def IsExpired_def discoverApps_def Let_def)

section \<open>The health check\<close>

text \<open>
  C9, as the code has it.  When the double of the configured TTL is itself a
  \<open>Duration\<close> (it lies between \<open>-2^63\<close> and \<open>2^63 - 1\<close> nanoseconds) and the connectivity
  probe succeeds, \<open>HealthCheck\<close> returns the stale error exactly when the age of the
  cache exceeds twice the TTL, and reports healthy otherwise.
\<close>

theorem HealthCheck_stale_iff_age_exceeds_double_TTL:
  assumes "- (2 ^ 63) \<le> 2 * sint (CacheTTL cfg)" and "2 * sint (CacheTTL cfg) < 2 ^ 63"
  shows "HealthCheck None cfg cache now =
           (if sint (time_Since now (UpdatedAt cache)) > 2 * sint (CacheTTL cfg)
            then Some (StaleError (time_Since now (UpdatedAt cache)))
            else None)"
  using sint_double [OF assms] by (simp add: HealthCheck_def Let_def)

theorem HealthCheck_stale_iff_age_exceeds_double_TTL_witness:
  "- (2 ^ 63) \<le> 2 * sint (CacheTTL defaultConfig)
   \<and> 2 * sint (CacheTTL defaultConfig) < 2 ^ 63
   \<and> HealthCheck None defaultConfig filledCache 20000001002
       = Some (StaleError 20000000001)
   \<and> HealthCheck None defaultConfig filledCache 20000001001 = None"
proof -
  have a: "- (2 ^ 63) \<le> 2 * sint (CacheTTL defaultConfig)"
    by (simp add: defaultConfig_def)
  have b: "2 * sint (CacheTTL defaultConfig) < 2 ^ 63"
    by (simp add: defaultConfig_def)
  have c: "time_Since 20000001002 (UpdatedAt filledCache) = 20000000001"
    by (simp add: filledCache_def time_Since_def time_Sub_def)
  have d: "time_Since 20000001001 (UpdatedAt filledCache) = 20000000000"
    by (simp add: filledCache_def time_Since_def time_Sub_def)
  have e: "sint (CacheTTL defaultConfig) = 10000000000"
    by (simp add: defaultConfig_def)
  show ?thesis
    using a b
      HealthCheck_stale_iff_age_exceeds_double_TTL [OF a b, of filledCache 20000001002]
      HealthCheck_stale_iff_age_exceeds_double_TTL [OF a b, of filledCache 20000001001]
    by (simp add: c d e)
qed

text \<open>
  C9, as the specification states it, fails for a TTL whose double overflows: with a
  TTL of \<open>2^62\<close> ns, a cache written one microsecond ago and a probe that succeeds, the
  age is far below twice the TTL, and \<open>HealthCheck\<close> returns the stale error, because
  \<open>CacheTTL * 2\<close> wraps around to \<open>-2^63\<close>.
\<close>

theorem HealthCheck_long_TTL_counterexample:
  "sint (time_Since 2001 (UpdatedAt longTTLCache)) \<le> 2 * sint (CacheTTL longTTLConfig)
   \<and> HealthCheck None longTTLConfig longTTLCache 2001 = Some (StaleError 1000)"
  by (simp add: HealthCheck_def longTTLConfig_def defaultConfig_def longTTLCache_def
      time_Since_def time_Sub_def)

section \<open>Variants\<close>

text \<open>
  C4.  Fold any sequence of observations, of either source, into the empty map.  Then
  the variants of every resulting app are the versions observed for its name, each
  once, in the order in which they were first seen; and every name observed has an app.
  Both folds preserve the invariant \<open>variants_ok\<close> of a name.  One pass of \<open>discoverApps\<close>
  returns the apps of such a fold, namely of the observations of the pass.
\<close>

theorem variants_first_seen:
  "(\<forall>a \<in> set (map snd (foldObservations obs [])).
       Variants a = first_seen (versions_of (Name a) obs)
     \<and> set (Variants a) = set (versions_of (Name a) obs)
     \<and> distinct (Variants a))
   \<and> (versions_of n obs \<noteq> [] \<longrightarrow> (\<exists>a \<in> set (map snd (foldObservations obs [])). Name a = n))
   \<and> (variants_ok m obs' n \<longrightarrow>
         variants_ok (foldAppVersion k v m) (obs' @ [(FromCRD, k, v)]) n
       \<and> variants_ok (foldWorkload k v m) (obs' @ [(FromWorkload, k, v)]) n)
   \<and> fst (discoverApps cfg cl) = Inr (map snd (foldObservations (passObservations cfg cl) []))"
proof (intro conjI ballI impI)
  fix a
  assume "a \<in> set (map snd (foldObservations obs []))"
  then have "map_of (foldObservations obs []) (Name a) = Some a" by (rule app_in_result)
  with variants_ok_all [of obs "Name a"]
  show v: "Variants a = first_seen (versions_of (Name a) obs)"
    by (simp add: variants_ok_def)
  show "set (Variants a) = set (versions_of (Name a) obs)"
    by (simp add: v set_first_seen)
  show "distinct (Variants a)"
    by (simp add: v distinct_first_seen)
next
  assume "versions_of n obs \<noteq> []"
  then show "\<exists>a \<in> set (map snd (foldObservations obs [])). Name a = n"
    by (rule observed_name_in_result)
next
  assume "variants_ok m obs' n"
  then show "variants_ok (foldAppVersion k v m) (obs' @ [(FromCRD, k, v)]) n"
    using variants_ok_step [of m obs' n FromCRD k v] by simp
next
  assume "variants_ok m obs' n"
  then show "variants_ok (foldWorkload k v m) (obs' @ [(FromWorkload, k, v)]) n"
    using variants_ok_step [of m obs' n FromWorkload k v] by simp
next
  show "fst (discoverApps cfg cl) = Inr (map snd (foldObservations (passObservations cfg cl) []))"
    by (rule discoverApps_folds)
qed

theorem variants_first_seen_witness:
  "map snd (foldObservations threeObservations []) =
     [\<lparr>Name = ''web'', Version = ''2.0'', Variants = [''2.0'', ''2.1'']\<rparr>,
      \<lparr>Name = ''db'', Version = ''5.7'', Variants = [''5.7'']\<rparr>]
   \<and> versions_of ''web'' threeObservations = [''2.0'', ''2.1'', ''2.0'']
   \<and> first_seen (versions_of ''web'' threeObservations) = [''2.0'', ''2.1'']
   \<and> (\<exists>a \<in> set (map snd (foldObservations threeObservations [])). Name a = ''web'')
   \<and> variants_ok [(''web'', webApp)] [(FromCRD, ''web'', ''2.0.0''), (FromWorkload, ''web'', ''2.1.0'')] ''web''
   \<and> variants_ok (foldAppVersion ''web'' ''2.2.0'' [(''web'', webApp)])
        [(FromCRD, ''web'', ''2.0.0''), (FromWorkload, ''web'', ''2.1.0''), (FromCRD, ''web'', ''2.2.0'')] ''web''
   \<and> variants_ok (foldWorkload ''web'' ''2.2.0'' [(''web'', webApp)])
        [(FromCRD, ''web'', ''2.0.0''), (FromWorkload, ''web'', ''2.1.0''), (FromWorkload, ''web'', ''2.2.0'')] ''web''"
proof -
  have e1: "map snd (foldObservations threeObservations []) =
     [\<lparr>Name = ''web'', Version = ''2.0'', Variants = [''2.0'', ''2.1'']\<rparr>,
      \<lparr>Name = ''db'', Version = ''5.7'', Variants = [''5.7'']\<rparr>]"
    by code_simp
  have e2: "versions_of ''web'' threeObservations = [''2.0'', ''2.1'', ''2.0'']"
    by code_simp
  have e3: "versions_of ''web'' threeObservations \<noteq> []"
    by (simp add: e2)
  have e4: "variants_ok [(''web'', webApp)]
              [(FromCRD, ''web'', ''2.0.0''), (FromWorkload, ''web'', ''2.1.0'')] ''web''"
    by code_simp
  note t = variants_first_seen [of threeObservations "''web''" "[(''web'', webApp)]"
      "[(FromCRD, ''web'', ''2.0.0''), (FromWorkload, ''web'', ''2.1.0'')]" "''web''" "''2.2.0''"
      defaultConfig endToEndCluster]
  from t e3 e4 show ?thesis
    by (simp add: e1 e2)
qed

section \<open>The main version\<close>

text \<open>
  C1, as the code has it.  The main version of every app that a pass returns is the
  version of the last AppVersion object processed for its name, when the CRD source
  supplied the name at all, and otherwise the version of the first workload processed
  for the name.  The fold of the CRD source sets the main version; the fold of the
  workload source leaves the main version of an existing entry as it is.
\<close>

theorem version_prefers_CRD:
  assumes "fst (discoverApps cfg cl) = Inr apps" and "a \<in> set apps"
  shows "(crd_versions_of (Name a) (passObservations cfg cl) \<noteq> [] \<longrightarrow>
            Version a = last (crd_versions_of (Name a) (passObservations cfg cl)))
       \<and> (crd_versions_of (Name a) (passObservations cfg cl) = [] \<longrightarrow>
            Version a = hd (versions_of (Name a) (passObservations cfg cl)))
       \<and> map_option Version (map_of (foldAppVersion k v m) k) = Some v
       \<and> (map_of m k = Some e \<longrightarrow>
            map_option Version (map_of (foldWorkload k v m) k) = Some (Version e))"
proof -
  let ?obs = "passObservations cfg cl"
  from assms have "a \<in> set (map snd (foldObservations ?obs []))"
    by (simp add: discoverApps_folds)
  then have m: "map_of (foldObservations ?obs []) (Name a) = Some a" by (rule app_in_result)
  with primary_version_all [of ?obs "Name a"]
  have "primary_version (Name a) ?obs = Some (Version a)" by simp
  then have "(crd_versions_of (Name a) ?obs \<noteq> [] \<longrightarrow>
                Version a = last (crd_versions_of (Name a) ?obs))
           \<and> (crd_versions_of (Name a) ?obs = [] \<longrightarrow>
                Version a = hd (versions_of (Name a) ?obs))"
    by (auto simp: primary_version_def split: if_splits)
  moreover have "map_option Version (map_of (foldAppVersion k v m) k) = Some v"
    by (simp add: map_of_foldAppVersion split: option.splits)
  moreover have "map_of m k = Some e \<longrightarrow>
            map_option Version (map_of (foldWorkload k v m) k) = Some (Version e)"
    by (simp add: map_of_foldWorkload)
  ultimately show ?thesis by blast
qed

theorem version_prefers_CRD_witness:
  "fst (discoverApps defaultConfig precedenceCluster) = Inr [webApp]
   \<and> crd_versions_of ''web'' (passObservations defaultConfig precedenceCluster) = [''2.0.0'']
   \<and> Version webApp = ''2.0.0''
   \<and> fst (discoverApps defaultConfig noCRDCluster) = Inr [apiApp]
   \<and> crd_versions_of ''api'' (passObservations defaultConfig noCRDCluster) = []
   \<and> versions_of ''api'' (passObservations defaultConfig noCRDCluster) = [''3.1'']
   \<and> Version apiApp = ''3.1''
   \<and> map_of [(''web'', webApp)] ''web'' = Some webApp
   \<and> map_option Version (map_of (foldWorkload ''web'' ''2.2.0'' [(''web'', webApp)]) ''web'')
       = Some ''2.0.0''"
proof -
  have a1: "fst (discoverApps defaultConfig precedenceCluster) = Inr [webApp]"
    by code_simp
  have a2: "webApp \<in> set [webApp]" by simp
  have a3: "crd_versions_of ''web'' (passObservations defaultConfig precedenceCluster) = [''2.0.0'']"
    by code_simp
  have b1: "fst (discoverApps defaultConfig noCRDCluster) = Inr [apiApp]"
    by code_simp
  have b2: "apiApp \<in> set [apiApp]" by simp
  have b3: "crd_versions_of ''api'' (passObservations defaultConfig noCRDCluster) = []"
    by code_simp
  have b4: "versions_of ''api'' (passObservations defaultConfig noCRDCluster) = [''3.1'']"
    by code_simp
  have c1: "map_of [(''web'', webApp)] ''web'' = Some webApp" by simp
  have n1: "Name webApp = ''web''" and n2: "Name apiApp = ''api''"
    and n3: "Version webApp = ''2.0.0''"
    by (simp_all add: webApp_def apiApp_def)
  note w = version_prefers_CRD [OF a1 a2, of "''web''" "''2.2.0''" "[(''web'', webApp)]" webApp]
  note p = version_prefers_CRD [OF b1 b2, of "''web''" "''2.2.0''" "[(''web'', webApp)]" webApp]
  from w p show ?thesis
    by (simp add: a1 a3 b1 b3 b4 c1 n1 n2 n3)
qed

text \<open>
  C1, as the specification states it, fails: with both sources enabled, an AppVersion
  object \<open>web\<close> 2.0.0 and a Deployment labelled \<open>web\<close> 2.1.0, the workload is the last
  source processed for the name, and the main version of the app stays \<open>2.0.0\<close>; the
  workload only adds \<open>2.1.0\<close> to the variants.
\<close>

theorem workload_does_not_overwrite_counterexample:
  "PreferCRD defaultConfig \<and> FallbackWorkloads defaultConfig \<and> \<not> CRDOnly defaultConfig
   \<and> passObservations defaultConfig precedenceCluster =
        [(FromCRD, ''web'', ''2.0.0''), (FromWorkload, ''web'', ''2.1.0'')]
   \<and> fst (discoverApps defaultConfig precedenceCluster) =
        Inr [\<lparr>Name = ''web'', Version = ''2.0.0'', Variants = [''2.0.0'', ''2.1.0'']\<rparr>]
   \<and> processWorkloadLabels (Labels (labelledWorkload ''web'' ''2.1.0'')) []
        (processAppVersionFromUnstructured (appVersionObject ''web'' ''2.0.0'') []) =
        [(''web'', \<lparr>Name = ''web'', Version = ''2.0.0'', Variants = [''2.0.0'', ''2.1.0'']\<rparr>)]"
  by code_simp

section \<open>The merge policy of one pass\<close>

text \<open>
  C5.  For every configuration and cluster, \<open>discoverApps\<close> returns apps and never an
  error, and what it folds and the list calls it issues are those of the merge policy:
  the CRD source exactly when \<open>PreferCRD\<close> is set, followed by the workload source
  exactly when \<open>FallbackWorkloads\<close> is set and \<open>CRDOnly\<close> is not.  A list call for
  AppVersion objects is issued if and only if \<open>PreferCRD\<close> is set; a list call for
  workloads is issued if and only if \<open>FallbackWorkloads\<close> is set, \<open>CRDOnly\<close> is not, and a
  kind the code knows is configured.  All observations and calls of the CRD source come
  before those of the workload source.  When the CRD source fails, a warning is logged
  and the pass returns what the workload source alone gives; in CRD-only mode the
  skipping of the workloads is logged at debug level.
\<close>

theorem merge_policy:
  "fst (discoverApps cfg cl) = Inr (map snd (foldObservations (passObservations cfg cl) []))
   \<and> calls (snd (discoverApps cfg cl)) = passCalls cfg cl
   \<and> (\<exists>c \<in> set (calls (snd (discoverApps cfg cl))). is_crd_call c) = PreferCRD cfg
   \<and> (\<exists>c \<in> set (calls (snd (discoverApps cfg cl))). is_workload_call c) =
       (FallbackWorkloads cfg \<and> \<not> CRDOnly cfg
        \<and> (''Deployment'' \<in> set (WorkloadKinds cfg) \<or> ''StatefulSet'' \<in> set (WorkloadKinds cfg)))
   \<and> passObservations cfg cl =
       filter (\<lambda>ob. fst ob = FromCRD) (passObservations cfg cl)
       @ filter (\<lambda>ob. fst ob = FromWorkload) (passObservations cfg cl)
   \<and> passCalls cfg cl =
       filter is_crd_call (passCalls cfg cl) @ filter is_workload_call (passCalls cfg cl)
   \<and> (PreferCRD cfg \<and> NamespaceSelector cfg = [] \<and> AppVersions cl [] = Inl e \<longrightarrow>
         (WarnLevel, ''CRD discovery failed, falling back to workloads'')
           \<in> set (logs (snd (discoverApps cfg cl)))
       \<and> fst (discoverApps cfg cl) =
           Inr (map snd (foldObservations
                           (if FallbackWorkloads cfg \<and> \<not> CRDOnly cfg
                            then workloadObservations cfg cl else []) [])))
   \<and> (PreferCRD cfg \<and> NamespaceSelector cfg \<noteq> []
        \<and> ns \<in> set (parseNamespaceSelector (NamespaceSelector cfg))
        \<and> AppVersions cl ns = Inl e \<longrightarrow>
         (WarnLevel, ''Failed to list AppVersions in namespace'')
           \<in> set (logs (snd (discoverApps cfg cl))))
   \<and> (CRDOnly cfg \<longrightarrow>
         (DebugLevel, ''CRD-only mode enabled, skipping workload discovery'')
           \<in> set (logs (snd (discoverApps cfg cl))))"
proof (intro conjI impI)
  show "fst (discoverApps cfg cl) = Inr (map snd (foldObservations (passObservations cfg cl) []))"
    by (rule discoverApps_folds)
  show "calls (snd (discoverApps cfg cl)) = passCalls cfg cl"
    by (rule discoverApps_calls)
  show "(\<exists>c \<in> set (calls (snd (discoverApps cfg cl))). is_crd_call c) = PreferCRD cfg"
    by (simp only: discoverApps_calls passCalls_crd)
  show "(\<exists>c \<in> set (calls (snd (discoverApps cfg cl))). is_workload_call c) =
       (FallbackWorkloads cfg \<and> \<not> CRDOnly cfg
        \<and> (''Deployment'' \<in> set (WorkloadKinds cfg) \<or> ''StatefulSet'' \<in> set (WorkloadKinds cfg)))"
    by (simp only: discoverApps_calls passCalls_workload)
  show "passObservations cfg cl =
       filter (\<lambda>ob. fst ob = FromCRD) (passObservations cfg cl)
       @ filter (\<lambda>ob. fst ob = FromWorkload) (passObservations cfg cl)"
    by (rule passObservations_CRD_first)
  show "passCalls cfg cl =
       filter is_crd_call (passCalls cfg cl) @ filter is_workload_call (passCalls cfg cl)"
    by (rule passCalls_CRD_first)
next
  assume a: "PreferCRD cfg \<and> NamespaceSelector cfg = [] \<and> AppVersions cl [] = Inl e"
  then show "(WarnLevel, ''CRD discovery failed, falling back to workloads'')
           \<in> set (logs (snd (discoverApps cfg cl)))"
    using discoverApps_logs_CRD_failure [of cfg cl e] by simp
  from a have "crdObservations cfg cl = []" by (simp add: crdObservations_failure)
  then show "fst (discoverApps cfg cl) =
           Inr (map snd (foldObservations
                           (if FallbackWorkloads cfg \<and> \<not> CRDOnly cfg
                            then workloadObservations cfg cl else []) []))"
    by (simp add: discoverApps_folds passObservations_def)
next
  assume "PreferCRD cfg \<and> NamespaceSelector cfg \<noteq> []
        \<and> ns \<in> set (parseNamespaceSelector (NamespaceSelector cfg))
        \<and> AppVersions cl ns = Inl e"
  then show "(WarnLevel, ''Failed to list AppVersions in namespace'')
           \<in> set (logs (snd (discoverApps cfg cl)))"
    using discoverApps_logs_namespace_failure [of cfg ns cl e] by simp
next
  assume "CRDOnly cfg"
  then show "(DebugLevel, ''CRD-only mode enabled, skipping workload discovery'')
           \<in> set (logs (snd (discoverApps cfg cl)))"
    by (rule discoverApps_logs_CRDOnly)
qed


theorem merge_policy_witness:
  "PreferCRD defaultConfig \<and> NamespaceSelector defaultConfig = []
   \<and> AppVersions noCRDCluster [] = Inl ''the server could not find the requested resource''
   \<and> (WarnLevel, ''CRD discovery failed, falling back to workloads'')
        \<in> set (logs (snd (discoverApps defaultConfig noCRDCluster)))
   \<and> fst (discoverApps defaultConfig noCRDCluster) = Inr [apiApp]
   \<and> calls (snd (discoverApps defaultConfig noCRDCluster)) =
        [ListAppVersions [], ListDeployments [], ListStatefulSets []]
   \<and> PreferCRD twoNamespacesConfig \<and> NamespaceSelector twoNamespacesConfig \<noteq> []
   \<and> ''a'' \<in> set (parseNamespaceSelector (NamespaceSelector twoNamespacesConfig))
   \<and> (WarnLevel, ''Failed to list AppVersions in namespace'')
        \<in> set (logs (snd (discoverApps twoNamespacesConfig noCRDCluster)))
   \<and> CRDOnly crdOnlyConfig
   \<and> (DebugLevel, ''CRD-only mode enabled, skipping workload discovery'')
        \<in> set (logs (snd (discoverApps crdOnlyConfig endToEndCluster)))
   \<and> calls (snd (discoverApps crdOnlyConfig endToEndCluster)) = [ListAppVersions []]"
proof -
  have a1: "PreferCRD defaultConfig \<and> NamespaceSelector defaultConfig = []
      \<and> AppVersions noCRDCluster [] = Inl ''the server could not find the requested resource''"
    by (simp add: defaultConfig_def noCRDCluster_def)
  have a2: "workloadObservations defaultConfig noCRDCluster = [(FromWorkload, ''api'', ''3.1'')]"
    by code_simp
  have a3: "map snd (foldObservations [(FromWorkload, ''api'', ''3.1'')] []) = [apiApp]"
    by code_simp
  have a4: "passCalls defaultConfig noCRDCluster =
              [ListAppVersions [], ListDeployments [], ListStatefulSets []]"
    by code_simp
  have a5: "FallbackWorkloads defaultConfig \<and> \<not> CRDOnly defaultConfig"
    by (simp add: defaultConfig_def)
  have b1: "PreferCRD twoNamespacesConfig \<and> NamespaceSelector twoNamespacesConfig \<noteq> []"
    by (simp add: twoNamespacesConfig_def defaultConfig_def)
  have b2: "parseNamespaceSelector (NamespaceSelector twoNamespacesConfig) = [''a'', ''b'']"
    by code_simp
  have b3: "AppVersions noCRDCluster ''a'' = Inl ''the server could not find the requested resource''"
    by (simp add: noCRDCluster_def)
  have c1: "CRDOnly crdOnlyConfig"
    by (simp add: crdOnlyConfig_def)
  have c2: "passCalls crdOnlyConfig endToEndCluster = [ListAppVersions []]"
    by code_simp
  note t1 = merge_policy [of defaultConfig noCRDCluster
      "''the server could not find the requested resource''" "[]"]
  note t2 = merge_policy [of twoNamespacesConfig noCRDCluster
      "''the server could not find the requested resource''" "''a''"]
  note t3 = merge_policy [of crdOnlyConfig endToEndCluster "[]" "[]"]
  have r1a: "(WarnLevel, ''CRD discovery failed, falling back to workloads'')
        \<in> set (logs (snd (discoverApps defaultConfig noCRDCluster)))
      \<and> fst (discoverApps defaultConfig noCRDCluster) =
           Inr (map snd (foldObservations
                           (if FallbackWorkloads defaultConfig \<and> \<not> CRDOnly defaultConfig
                            then workloadObservations defaultConfig noCRDCluster else []) []))"
    using t1 a1 by blast
  have r1b: "calls (snd (discoverApps defaultConfig noCRDCluster)) =
               passCalls defaultConfig noCRDCluster"
    using t1 by blast
  have r1: "(WarnLevel, ''CRD discovery failed, falling back to workloads'')
        \<in> set (logs (snd (discoverApps defaultConfig noCRDCluster)))
      \<and> fst (discoverApps defaultConfig noCRDCluster) = Inr [apiApp]
      \<and> calls (snd (discoverApps defaultConfig noCRDCluster)) =
        [ListAppVersions [], ListDeployments [], ListStatefulSets []]"
    using r1a r1b a5 by (simp add: a2 a3 a4)
  have r2: "(WarnLevel, ''Failed to list AppVersions in namespace'')
        \<in> set (logs (snd (discoverApps twoNamespacesConfig noCRDCluster)))"
    using t2 b1 b3 by (simp add: b2)
  have r3a: "(DebugLevel, ''CRD-only mode enabled, skipping workload discovery'')
        \<in> set (logs (snd (discoverApps crdOnlyConfig endToEndCluster)))"
    using t3 c1 by blast
  have r3b: "calls (snd (discoverApps crdOnlyConfig endToEndCluster)) =
               passCalls crdOnlyConfig endToEndCluster"
    using t3 by blast
  have r3: "(DebugLevel, ''CRD-only mode enabled, skipping workload discovery'')
        \<in> set (logs (snd (discoverApps crdOnlyConfig endToEndCluster)))
      \<and> calls (snd (discoverApps crdOnlyConfig endToEndCluster)) = [ListAppVersions []]"
    using r3a r3b by (simp add: c2)
  from a1 b1 b2 c1 r1 r2 r3 show ?thesis by simp
qed

section \<open>A failed list call during workload discovery\<close>

lemma discoverFromDeployments_stops:
  assumes "Deployments cl ns = Inl e"
  shows "discoverFromDeployments cl (ns # rest) st =
           (Some (''failed to list deployments: '' @ e), called (ListDeployments ns) st)"
  using assms by (cases "ns = []") simp_all

lemma discoverFromStatefulSets_stops:
  assumes "StatefulSets cl ns = Inl e"
  shows "discoverFromStatefulSets cl (ns # rest) st =
           (Some (''failed to list statefulsets: '' @ e), called (ListStatefulSets ns) st)"
  using assms by (cases "ns = []") simp_all

lemma discoverCRDNamespaces_continues:
  assumes "AppVersions cl ns = Inl e"
  shows "discoverCRDNamespaces cl (ns # rest) st =
           discoverCRDNamespaces cl rest
             (logged WarnLevel ''Failed to list AppVersions in namespace''
                (called (ListAppVersions ns) st))"
  using assms by (simp add: Let_def)

text \<open>
  C6.  The code on a selector of two namespaces, \<open>a\<close> and \<open>b\<close>, when listing the
  Deployments of \<open>a\<close> fails: the failure is logged and the StatefulSets, the next kind,
  are listed in both namespaces, but the Deployments of \<open>b\<close> are never listed, and the
  Deployment \<open>web\<close> that lives there is missing from the result.  \<open>discoverFromDeployments\<close>
  returns at the first failed list call, so the namespaces after it are skipped as
  well, where the loop of the CRD source continues with the next namespace.
\<close>

theorem failed_namespace_stops_the_kind:
  "Deployments refusingCluster ''a'' = Inl ''forbidden''
   \<and> Deployments refusingCluster ''b'' = Inr [labelledWorkload ''web'' ''1.0'']
   \<and> workloadNamespaces twoNamespacesConfig = [''a'', ''b'']
   \<and> calls (snd (discoverApps twoNamespacesConfig refusingCluster)) =
        [ListAppVersions ''a'', ListAppVersions ''b'', ListDeployments ''a'',
         ListStatefulSets ''a'', ListStatefulSets ''b'']
   \<and> logs (snd (discoverApps twoNamespacesConfig refusingCluster)) =
        [(ErrorLevel, ''Failed to discover from deployments'')]
   \<and> fst (discoverApps twoNamespacesConfig refusingCluster) =
        Inr [\<lparr>Name = ''db'', Version = ''5.7'', Variants = [''5.7'']\<rparr>]"
  by code_simp


section \<open>An empty token in the namespace selector\<close>

lemma visited_reaches:
  "x \<in> set nss \<Longrightarrow>
   \<forall>ns \<in> set (takeWhile (\<lambda>ns. ns \<noteq> x) nss). succeeded (f ns) \<Longrightarrow>
   x \<in> set (visited f nss)"
proof (induction nss)
  case Nil
  then show ?case by simp
next
  case (Cons n nss)
  show ?case
  proof (cases "n = x")
    case True
    then show ?thesis by (simp split: sum.splits)
  next
    case False
    with Cons.prems have "succeeded (f n)" by simp
    with False Cons show ?thesis
      by (auto simp: succeeded_def split: sum.splits)
  qed
qed


lemma discoverAppsFromWorkloads_appMap:
  "appMap (snd (discoverAppsFromWorkloads cfg cl st)) =
     foldObservations (workloadObservations cfg cl) (appMap st)"
  by (simp add: discoverAppsFromWorkloads_def discoverKinds_appMap workloadObservations_def)


lemma visited_reached:
  "x \<in> set (visited f nss) \<Longrightarrow>
   \<forall>ns \<in> set (takeWhile (\<lambda>ns. ns \<noteq> x) nss). succeeded (f ns)"
proof (induction nss)
  case Nil
  then show ?case by simp
next
  case (Cons n nss)
  show ?case
  proof (cases "n = x")
    case True
    then show ?thesis by simp
  next
    case False
    with Cons show ?thesis
      by (auto simp: succeeded_def split: sum.splits)
  qed
qed

lemma ListDeployments_in_workloadCalls:
  "(ListDeployments x \<in> set (workloadCalls cfg cl)) =
     (''Deployment'' \<in> set (WorkloadKinds cfg)
      \<and> x \<in> set (visited (Deployments cl) (workloadNamespaces cfg)))"
  by (auto simp: workloadCalls_def kindCalls_def split: if_splits)

lemma ListStatefulSets_in_workloadCalls:
  "(ListStatefulSets x \<in> set (workloadCalls cfg cl)) =
     (''StatefulSet'' \<in> set (WorkloadKinds cfg)
      \<and> x \<in> set (visited (StatefulSets cl) (workloadNamespaces cfg)))"
  by (auto simp: workloadCalls_def kindCalls_def split: if_splits)

lemma cluster_wide_Deployments_iff:
  assumes "[] \<in> set (workloadNamespaces cfg)"
  shows "(ListDeployments [] \<in> set (workloadCalls cfg cl)) =
       (''Deployment'' \<in> set (WorkloadKinds cfg)
        \<and> (\<forall>ns \<in> set (takeWhile (\<lambda>ns. ns \<noteq> []) (workloadNamespaces cfg)).
              succeeded (Deployments cl ns)))"
  using assms visited_reaches [of "[]" "workloadNamespaces cfg" "Deployments cl"]
    visited_reached [of "[]" "Deployments cl" "workloadNamespaces cfg"]
  unfolding ListDeployments_in_workloadCalls by blast

lemma cluster_wide_StatefulSets_iff:
  assumes "[] \<in> set (workloadNamespaces cfg)"
  shows "(ListStatefulSets [] \<in> set (workloadCalls cfg cl)) =
       (''StatefulSet'' \<in> set (WorkloadKinds cfg)
        \<and> (\<forall>ns \<in> set (takeWhile (\<lambda>ns. ns \<noteq> []) (workloadNamespaces cfg)).
              succeeded (StatefulSets cl ns)))"
  using assms visited_reaches [of "[]" "workloadNamespaces cfg" "StatefulSets cl"]
    visited_reached [of "[]" "StatefulSets cl" "workloadNamespaces cfg"]
  unfolding ListStatefulSets_in_workloadCalls by blast




end
